theory Spec2Isabelle
  imports Complex_Main
begin

section \<open>JavaScript values, strings and dates\<close>

text \<open>
  Values that reach \<open>parseDateTime\<close> come out of a JSON document, so they may be of
  any JSON type (a JSON number is never NaN); a missing key reads as \<open>undefined\<close>.
  Arrays and objects behave alike
  in everything the code does with them (they are truthy and have no usable
  \<open>match\<close> method), so they share the constructor \<open>JObject\<close>.
\<close>

datatype jsval = JUndefined | JNull | JBool bool | JNum real | JStr string | JObject

fun truthy :: "jsval \<Rightarrow> bool" where
  "truthy JUndefined = False"
| "truthy JNull = False"
| "truthy (JBool b) = b"
| "truthy (JNum n) = (n \<noteq> 0)"
| "truthy (JStr s) = (s \<noteq> [])"
| "truthy JObject = True"

datatype js_error = TypeError

text \<open>Character classes of the regular expressions: \<open>\d\<close> is an ASCII digit, \<open>\s\<close>
  is JavaScript white space (of the code units below 256: TAB, LF, VT, FF, CR, space
  and U+00A0).\<close>

definition is_digit :: "char \<Rightarrow> bool" where
  "is_digit c = (c \<in> set ''0123456789'')"

definition is_space :: "char \<Rightarrow> bool" where
  "is_space c = ((of_char c :: nat) \<in> {9, 10, 11, 12, 13, 32, 160})"

definition digit_val :: "char \<Rightarrow> int" where
  "digit_val c = int (of_char c) - 48"

text \<open>\<open>parseInt\<close> on a string of decimal digits (all it is applied to here).\<close>

definition parseInt :: "string \<Rightarrow> int" where
  "parseInt s = foldl (\<lambda>a c. 10 * a + digit_val c) 0 s"

text \<open>\<open>String.prototype.toLowerCase\<close> on code units below 256: the capital letters
  (A to Z, and U+00C0 to U+00DE but for the multiplication sign) move up by 32, which sets
  bit 5.\<close>

definition lower_char :: "char \<Rightarrow> char" where
  "lower_char c =
     (let n = (of_char c :: nat)
      in if (65 \<le> n \<and> n \<le> 90) \<or> (192 \<le> n \<and> n \<le> 222 \<and> n \<noteq> 215)
         then (case c of Char b0 b1 b2 b3 b4 b5 b6 b7 \<Rightarrow> Char b0 b1 b2 b3 b4 True b6 b7)
         else c)"

definition toLowerCase :: "string \<Rightarrow> string" where
  "toLowerCase s = map lower_char s"

subsection \<open>The date pattern \<open>/^\d{4}-\d{2}-\d{2}$/\<close>\<close>

fun iso_shape :: "string \<Rightarrow> bool" where
  "iso_shape [y1, y2, y3, y4, s1, m1, m2, s2, d1, d2] =
     (is_digit y1 \<and> is_digit y2 \<and> is_digit y3 \<and> is_digit y4 \<and> s1 = CHR ''-'' \<and>
      is_digit m1 \<and> is_digit m2 \<and> s2 = CHR ''-'' \<and> is_digit d1 \<and> is_digit d2)"
| "iso_shape _ = False"

subsection \<open>The time pattern \<open>/(\d{1,2}):(\d{2})\s*(am|pm)?/i\<close>\<close>

text \<open>The three capture groups of a match; the third is absent when \<open>(am|pm)?\<close>
  matched nothing.\<close>

type_synonym time_groups = "string \<times> string \<times> string option"

fun two_digits :: "string \<Rightarrow> (string \<times> string) option" where
  "two_digits (a # b # r) = (if is_digit a \<and> is_digit b then Some ([a, b], r) else None)"
| "two_digits _ = None"

fun colon_minutes :: "string \<Rightarrow> (string \<times> string) option" where
  "colon_minutes (c # r) = (if c = CHR '':'' then two_digits r else None)"
| "colon_minutes [] = None"

fun ampm_group :: "string \<Rightarrow> string option" where
  "ampm_group (a # m # r) =
     (if a \<in> set ''aApP'' \<and> m \<in> set ''mM'' then Some [a, m] else None)"
| "ampm_group _ = None"

definition after_hour :: "string \<Rightarrow> string \<Rightarrow> time_groups option" where
  "after_hour h r =
     (case colon_minutes r of
        None \<Rightarrow> None
      | Some (m, r') \<Rightarrow> Some (h, m, ampm_group (dropWhile is_space r')))"

text \<open>A match starting at the head of the string: \<open>\d{1,2}\<close> is greedy, so two digits
  are tried first and one digit on backtracking.\<close>

definition time_match_at :: "string \<Rightarrow> time_groups option" where
  "time_match_at s =
     (case (case two_digits s of Some (h, r) \<Rightarrow> after_hour h r | None \<Rightarrow> None) of
        Some g \<Rightarrow> Some g
      | None \<Rightarrow>
          (case s of
             [] \<Rightarrow> None
           | d # r \<Rightarrow> if is_digit d then after_hour [d] r else None))"

text \<open>\<open>time.match(re)\<close> for a regular expression without the global flag: the leftmost
  match, or \<open>null\<close>.\<close>

fun time_search :: "string \<Rightarrow> time_groups option" where
  "time_search [] = None"
| "time_search (c # cs) =
     (case time_match_at (c # cs) of Some g \<Rightarrow> Some g | None \<Rightarrow> time_search cs)"

subsection \<open>Dates\<close>

text \<open>
  A \<open>Date\<close> object holds a time value: milliseconds since the epoch in UTC, or NaN
  (an invalid date), here \<open>None\<close>. The clock and the time zone of the process are
  parameters. The local time zone adjustment is taken constant over the instants involved.
\<close>

type_synonym jsdate = "int option"

record clock =
  now_ms :: int
  local_tza :: int

definition msPerDay :: int where "msPerDay = 86400000"
definition msPerHour :: int where "msPerHour = 3600000"
definition msPerMinute :: int where "msPerMinute = 60000"

definition Day :: "int \<Rightarrow> int" where
  "Day t = t div msPerDay"

definition TimeWithinDay :: "int \<Rightarrow> int" where
  "TimeWithinDay t = t mod msPerDay"

definition MakeTime :: "int \<Rightarrow> int \<Rightarrow> int \<Rightarrow> int \<Rightarrow> int" where
  "MakeTime h m s ms = h * msPerHour + m * msPerMinute + s * 1000 + ms"

definition MakeDate :: "int \<Rightarrow> int \<Rightarrow> int" where
  "MakeDate day time = day * msPerDay + time"

definition LocalTime :: "clock \<Rightarrow> int \<Rightarrow> int" where
  "LocalTime ck t = t + local_tza ck"

definition UTC :: "clock \<Rightarrow> int \<Rightarrow> int" where
  "UTC ck t = t - local_tza ck"

definition DayFromYear :: "int \<Rightarrow> int" where
  "DayFromYear y =
     365 * (y - 1970) + (y - 1969) div 4 - (y - 1901) div 100 + (y - 1601) div 400"

definition InLeapYear :: "int \<Rightarrow> bool" where
  "InLeapYear y = (y mod 4 = 0 \<and> (y mod 100 \<noteq> 0 \<or> y mod 400 = 0))"

text \<open>Days before the first of month \<open>m\<close> (0 = January) within its year.\<close>

definition month_start :: "bool \<Rightarrow> int \<Rightarrow> int" where
  "month_start leap m =
     [0, 31, 59, 90, 120, 151, 181, 212, 243, 273, 304, 334] ! nat m
       + (if leap \<and> 2 \<le> m then 1 else 0)"

text \<open>\<open>MakeDay(year, month, date)\<close>: the day number of the given date, months counted
  from 0; a month outside 0..11 carries into the year and a day outside the month runs
  on into the neighbouring months.\<close>

definition MakeDay :: "int \<Rightarrow> int \<Rightarrow> int \<Rightarrow> int" where
  "MakeDay year month date =
     (let ym = year + month div 12; mn = month mod 12
      in DayFromYear ym + month_start (InLeapYear ym) mn + date - 1)"

text \<open>\<open>new Date()\<close>.\<close>

definition new_Date :: "clock \<Rightarrow> jsdate" where
  "new_Date ck = Some (now_ms ck)"

text \<open>\<open>new Date(s)\<close> for a string of the shape YYYY-MM-DD. A date-only ISO string is
  read as midnight UTC. Node's parser takes months 01..12 and days 01..31 and yields an
  invalid date otherwise.\<close>

definition new_Date_iso :: "string \<Rightarrow> jsdate" where
  "new_Date_iso s =
     (let y = parseInt (take 4 s); m = parseInt (take 2 (drop 5 s)); d = parseInt (drop 8 s)
      in if 1 \<le> m \<and> m \<le> 12 \<and> 1 \<le> d \<and> d \<le> 31
         then Some (MakeDate (MakeDay y (m - 1) d) 0) else None)"

text \<open>\<open>d.setDate(d.getDate() + 1)\<close>: the next local calendar day, same time within the
  day.\<close>

definition setDate_next :: "clock \<Rightarrow> jsdate \<Rightarrow> jsdate" where
  "setDate_next ck d =
     (case d of
        None \<Rightarrow> None
      | Some t \<Rightarrow>
          Some (UTC ck (MakeDate (Day (LocalTime ck t) + 1) (TimeWithinDay (LocalTime ck t)))))"

text \<open>\<open>d.setHours(hour, minute, 0, 0)\<close>: local time fields of the local day of \<open>d\<close>.\<close>

definition setHours :: "clock \<Rightarrow> jsdate \<Rightarrow> int \<Rightarrow> int \<Rightarrow> jsdate" where
  "setHours ck d hour minute =
     (case d of
        None \<Rightarrow> None
      | Some t \<Rightarrow> Some (UTC ck (MakeDate (Day (LocalTime ck t)) (MakeTime hour minute 0 0))))"

section \<open>parseDateTime\<close>

definition tomorrow_10 :: "clock \<Rightarrow> jsdate" where
  "tomorrow_10 ck = setHours ck (setDate_next ck (new_Date ck)) 10 0"

text \<open>The date branch of the \<open>try\<close> block, for a string.\<close>

definition target_date :: "clock \<Rightarrow> string \<Rightarrow> jsdate" where
  "target_date ck ds =
     (if iso_shape ds then new_Date_iso ds
      else if toLowerCase ds = ''tomorrow'' then setDate_next ck (new_Date ck)
      else if toLowerCase ds = ''today'' then new_Date ck
      else setDate_next ck (new_Date ck))"

text \<open>\<open>timeMatch[3] && timeMatch[3].toLowerCase() === s\<close>\<close>

definition group_is :: "string option \<Rightarrow> string \<Rightarrow> bool" where
  "group_is ap s = (case ap of None \<Rightarrow> False | Some a \<Rightarrow> toLowerCase a = s)"

text \<open>Hour and minute from the capture groups.\<close>

definition hour_minute :: "time_groups \<Rightarrow> int \<times> int" where
  "hour_minute g =
     (case g of (h, m, ap) \<Rightarrow>
        (let hour = parseInt h; minute = parseInt m;
             hour1 = (if group_is ap ''pm'' \<and> hour < 12 then hour + 12 else hour);
             hour2 = (if group_is ap ''am'' \<and> hour1 = 12 then 0 else hour1)
         in (hour2, minute)))"

text \<open>The time branch: \<open>time.match\<close> of a truthy value that is no string is a
  \<open>TypeError\<close>.\<close>

definition parse_time :: "jsval \<Rightarrow> js_error + (int \<times> int)" where
  "parse_time time =
     (if truthy time then
        (case time of
           JStr ts \<Rightarrow>
             (case time_search ts of
                Some g \<Rightarrow> Inr (hour_minute g)
              | None \<Rightarrow> Inr (10, 0))
         | _ \<Rightarrow> Inl TypeError)
      else Inr (10, 0))"

text \<open>The body of the \<open>try\<close> block, entered with a truthy \<open>date\<close>.\<close>

definition parseDateTime_try :: "clock \<Rightarrow> jsval \<Rightarrow> jsval \<Rightarrow> js_error + jsdate" where
  "parseDateTime_try ck date time =
     (case date of
        JStr ds \<Rightarrow>
          (let targetDate = target_date ck ds
           in case parse_time time of
                Inl e \<Rightarrow> Inl e
              | Inr (hour, minute) \<Rightarrow> Inr (setHours ck targetDate hour minute))
      | _ \<Rightarrow> Inl TypeError)"

definition parseDateTime :: "clock \<Rightarrow> jsval \<Rightarrow> jsval \<Rightarrow> jsdate" where
  "parseDateTime ck date time =
     (if \<not> truthy date then tomorrow_10 ck
      else (case parseDateTime_try ck date time of
              Inr d \<Rightarrow> d
            | Inl e \<Rightarrow> tomorrow_10 ck))"

section \<open>The database and the world around the handler\<close>

type_synonym ident = nat

text \<open>
  The structured data of a call analysis, with the field types that the extraction
  schema of the inbound route declares (strings, a number for the year, a boolean for
  \<open>booking_confirmed\<close>); a missing key is \<open>None\<close>.
\<close>

record structured_data =
  customer_name :: "string option"
  customer_phone :: "string option"
  customer_email :: "string option"
  vehicle_make :: "string option"
  vehicle_model :: "string option"
  vehicle_year :: "int option"
  issue_summary :: "string option"
  issue_category :: "string option"
  urgency :: "string option"
  preferred_date :: "string option"
  preferred_time :: "string option"
  booking_confirmed :: "bool option"

text \<open>Truthiness of an optional string and of an optional boolean, and \<open>x || d\<close>.\<close>

definition truthy_str :: "string option \<Rightarrow> bool" where
  "truthy_str x = (case x of None \<Rightarrow> False | Some s \<Rightarrow> s \<noteq> [])"

definition truthy_bool :: "bool option \<Rightarrow> bool" where
  "truthy_bool x = (case x of None \<Rightarrow> False | Some b \<Rightarrow> b)"

definition or_str :: "string option \<Rightarrow> string \<Rightarrow> string" where
  "or_str x d = (case x of None \<Rightarrow> d | Some s \<Rightarrow> if s \<noteq> [] then s else d)"

definition str_val :: "string option \<Rightarrow> jsval" where
  "str_val x = (case x of None \<Rightarrow> JUndefined | Some s \<Rightarrow> JStr s)"

record sentiment_obj =
  label :: "string option"

subsection \<open>Tables\<close>

record call_row =
  call_id :: ident
  call_status :: string
  ended_at :: "int option"
  duration_seconds :: "int option"
  cost_usd :: real
  recording_url :: "string option"
  call_transcript :: "string option"

record analysis_row =
  ca_call_id :: ident
  ca_structured_data :: structured_data
  ca_customer_name :: "string option"
  ca_customer_phone :: "string option"
  ca_vehicle_make :: "string option"
  ca_vehicle_model :: "string option"
  ca_issue_keywords :: "string option"
  ca_sentiment :: string
  ca_booking_created :: bool

record customer_row =
  cust_id :: ident
  cust_workshop_id :: ident
  cust_name :: "string option"
  cust_phone :: "string option"
  cust_email :: "string option"

record vehicle_row =
  veh_id :: ident
  veh_customer_id :: ident
  veh_make :: "string option"
  veh_model :: "string option"
  veh_year :: "int option"

record booking_row =
  bk_id :: ident
  bk_workshop_id :: ident
  bk_customer_id :: ident
  bk_vehicle_id :: "ident option"
  bk_call_id :: ident
  bk_scheduled_at :: jsdate
  bk_issue_summary :: "string option"
  bk_issue_category :: string
  bk_urgency :: string
  bk_status :: string

record db =
  calls :: "call_row list"
  call_analysis :: "analysis_row list"
  customers :: "customer_row list"
  vehicles :: "vehicle_row list"
  bookings :: "booking_row list"

subsection \<open>Statements, effects and failures\<close>

text \<open>The SQL statements the handler issues, with their parameters.\<close>

datatype stmt =
    Begin
  | Commit
  | Rollback
  | UpdateCall string "int option" real "string option" "string option" ident
  | InsertCallAnalysis analysis_row
  | SelectCustomer ident "string option"
  | InsertCustomer ident "string option" "string option" "string option"
  | InsertVehicle ident "string option" "string option" "int option"
  | InsertBooking ident ident "ident option" ident jsdate "string option" string string string
  | MarkBookingCreated ident

record notify_payload =
  np_bookingId :: ident
  np_workshopId :: ident
  np_customerId :: ident
  np_customerEmail :: "string option"
  np_scheduledAt :: jsdate

datatype event = EvSql stmt | EvPost notify_payload | EvWarn | EvRelease

datatype error = ConnectError | DbError stmt | HttpError

text \<open>
  What the code cannot decide is a parameter: the clock and time zone, the clock of the
  database (\<open>NOW()\<close>), whether the pool hands out a client, which statement the database
  rejects in which state (a constraint violation, a lost connection), and whether the
  notification request fails (network error or a status outside 2xx).
\<close>

record services =
  clk :: clock
  db_now :: int
  connect_fails :: bool
  db_fails :: "stmt \<Rightarrow> db \<Rightarrow> bool"
  post_fails :: "notify_payload \<Rightarrow> bool"

text \<open>
  The world: the committed database, the working copy of the transaction the client has
  open (if any), the generator of fresh row ids (not transactional), and the effects issued
  so far, oldest first.
\<close>

record world =
  committed :: db
  tx :: "db option"
  id_seq :: nat
  trace :: "event list"

definition session_db :: "world \<Rightarrow> db" where
  "session_db w = (case tx w of Some d \<Rightarrow> d | None \<Rightarrow> committed w)"

text \<open>A statement outside a transaction commits at once.\<close>

definition store :: "db \<Rightarrow> world \<Rightarrow> world" where
  "store d w = (case tx w of Some _ \<Rightarrow> w\<lparr>tx := Some d\<rparr> | None \<Rightarrow> w\<lparr>committed := d\<rparr>)"

definition emit :: "event \<Rightarrow> world \<Rightarrow> world" where
  "emit e w = w\<lparr>trace := trace w @ [e]\<rparr>"

type_synonym 'a proc = "world \<Rightarrow> (error + 'a) \<times> world"

definition ret :: "'a \<Rightarrow> 'a proc" where
  "ret x w = (Inr x, w)"

text \<open>Sequencing of awaited calls: an exception skips what follows.\<close>

definition andThen :: "'a proc \<Rightarrow> ('a \<Rightarrow> 'b proc) \<Rightarrow> 'b proc" where
  "andThen m f w = (case m w of (Inl e, w1) \<Rightarrow> (Inl e, w1) | (Inr x, w1) \<Rightarrow> f x w1)"

text \<open>\<open>client.query\<close>: the statement is issued; the database rejects it, or runs it
  on the session's view of the data.\<close>

definition query :: "services \<Rightarrow> stmt \<Rightarrow> (db \<Rightarrow> 'r \<times> db) \<Rightarrow> 'r proc" where
  "query sv q act w =
     (let w1 = emit (EvSql q) w
      in if db_fails sv q (session_db w) then (Inl (DbError q), w1)
         else (case act (session_db w) of (r, d) \<Rightarrow> (Inr r, store d w1)))"

text \<open>An \<open>INSERT ... RETURNING\<close> draws a fresh id.\<close>

definition insert_returning :: "services \<Rightarrow> stmt \<Rightarrow> (ident \<Rightarrow> db \<Rightarrow> 'r \<times> db) \<Rightarrow> 'r proc" where
  "insert_returning sv q act w =
     (let w1 = emit (EvSql q) w
      in if db_fails sv q (session_db w) then (Inl (DbError q), w1)
         else (case act (id_seq w) (session_db w) of
                 (r, d) \<Rightarrow> (Inr r, store d (w1\<lparr>id_seq := Suc (id_seq w)\<rparr>))))"

definition tx_begin :: "services \<Rightarrow> unit proc" where
  "tx_begin sv w =
     (let w1 = emit (EvSql Begin) w
      in if db_fails sv Begin (session_db w) then (Inl (DbError Begin), w1)
         else (Inr (), w1\<lparr>tx := Some (session_db w)\<rparr>))"

definition tx_commit :: "services \<Rightarrow> unit proc" where
  "tx_commit sv w =
     (let w1 = emit (EvSql Commit) w
      in if db_fails sv Commit (session_db w) then (Inl (DbError Commit), w1)
         else (Inr (), w1\<lparr>committed := session_db w, tx := None\<rparr>))"

text \<open>A rollback that the database rejects leaves the transaction open but uncommitted.\<close>

definition tx_rollback :: "services \<Rightarrow> unit proc" where
  "tx_rollback sv w =
     (let w1 = emit (EvSql Rollback) w
      in if db_fails sv Rollback (session_db w) then (Inl (DbError Rollback), w1)
         else (Inr (), w1\<lparr>tx := None\<rparr>))"

subsection \<open>The statements\<close>

definition update_call ::
  "services \<Rightarrow> string \<Rightarrow> int option \<Rightarrow> real \<Rightarrow> string option \<Rightarrow> string option \<Rightarrow> ident \<Rightarrow> unit proc" where
  "update_call sv st dur cst rec tr cid =
     query sv (UpdateCall st dur cst rec tr cid)
       (\<lambda>d. ((), d\<lparr>calls :=
          map (\<lambda>c. if call_id c = cid
                    then c\<lparr>call_status := st, ended_at := Some (db_now sv),
                           duration_seconds := dur, cost_usd := cst,
                           recording_url := rec, call_transcript := tr\<rparr>
                    else c) (calls d)\<rparr>))"

definition insert_call_analysis :: "services \<Rightarrow> analysis_row \<Rightarrow> unit proc" where
  "insert_call_analysis sv row =
     query sv (InsertCallAnalysis row) (\<lambda>d. ((), d\<lparr>call_analysis := call_analysis d @ [row]\<rparr>))"

text \<open>\<open>WHERE workshop_id = $1 AND phone = $2\<close>: a comparison with NULL selects no
  row.\<close>

definition customer_matches :: "ident \<Rightarrow> string option \<Rightarrow> customer_row \<Rightarrow> bool" where
  "customer_matches wid ph c =
     (cust_workshop_id c = wid \<and> ph \<noteq> None \<and> cust_phone c = ph)"

definition select_customer :: "services \<Rightarrow> ident \<Rightarrow> string option \<Rightarrow> customer_row list proc" where
  "select_customer sv wid ph =
     query sv (SelectCustomer wid ph) (\<lambda>d. (filter (customer_matches wid ph) (customers d), d))"

definition insert_customer ::
  "services \<Rightarrow> ident \<Rightarrow> string option \<Rightarrow> string option \<Rightarrow> string option \<Rightarrow> ident proc" where
  "insert_customer sv wid nm ph em =
     insert_returning sv (InsertCustomer wid nm ph em)
       (\<lambda>i d. (i, d\<lparr>customers := customers d @
          [\<lparr>cust_id = i, cust_workshop_id = wid, cust_name = nm, cust_phone = ph,
            cust_email = em\<rparr>]\<rparr>))"

definition insert_vehicle ::
  "services \<Rightarrow> ident \<Rightarrow> string option \<Rightarrow> string option \<Rightarrow> int option \<Rightarrow> ident proc" where
  "insert_vehicle sv cid mk md yr =
     insert_returning sv (InsertVehicle cid mk md yr)
       (\<lambda>i d. (i, d\<lparr>vehicles := vehicles d @
          [\<lparr>veh_id = i, veh_customer_id = cid, veh_make = mk, veh_model = md, veh_year = yr\<rparr>]\<rparr>))"

definition insert_booking ::
  "services \<Rightarrow> ident \<Rightarrow> ident \<Rightarrow> ident option \<Rightarrow> ident \<Rightarrow> jsdate \<Rightarrow> string option \<Rightarrow> string \<Rightarrow>
   string \<Rightarrow> string \<Rightarrow> booking_row proc" where
  "insert_booking sv wid cid vid callid sched summ cat urg st =
     insert_returning sv (InsertBooking wid cid vid callid sched summ cat urg st)
       (\<lambda>i d. (let b = \<lparr>bk_id = i, bk_workshop_id = wid, bk_customer_id = cid,
                         bk_vehicle_id = vid, bk_call_id = callid, bk_scheduled_at = sched,
                         bk_issue_summary = summ, bk_issue_category = cat, bk_urgency = urg,
                         bk_status = st\<rparr>
                in (b, d\<lparr>bookings := bookings d @ [b]\<rparr>)))"

definition mark_booking_created :: "services \<Rightarrow> ident \<Rightarrow> unit proc" where
  "mark_booking_created sv callid =
     query sv (MarkBookingCreated callid)
       (\<lambda>d. ((), d\<lparr>call_analysis :=
          map (\<lambda>a. if ca_call_id a = callid then a\<lparr>ca_booking_created := True\<rparr> else a)
            (call_analysis d)\<rparr>))"

text \<open>\<open>axios.post\<close>: the request is sent; it rejects on a network error or a status
  outside 2xx.\<close>

definition axios_post :: "services \<Rightarrow> notify_payload \<Rightarrow> unit proc" where
  "axios_post sv p w =
     (let w1 = emit (EvPost p) w
      in if post_fails sv p then (Inl HttpError, w1) else (Inr (), w1))"

section \<open>createBooking\<close>

record call_ref =
  callId :: ident
  workshopId :: ident

record booking_data = call_ref +
  customerName :: "string option"
  customerPhone :: "string option"
  customerEmail :: "string option"
  vehicleMake :: "string option"
  vehicleModel :: "string option"
  vehicleYear :: "int option"
  issueSummary :: "string option"
  issueCategory :: string
  urgency_of :: string
  preferredDate :: "string option"
  preferredTime :: "string option"

text \<open>Step 1: find or create the customer.\<close>

definition find_or_create_customer :: "services \<Rightarrow> booking_data \<Rightarrow> ident proc" where
  "find_or_create_customer sv data =
     andThen (select_customer sv (workshopId data) (customerPhone data)) (\<lambda>rows.
       case rows of
         [] \<Rightarrow> insert_customer sv (workshopId data) (customerName data) (customerPhone data)
                 (customerEmail data)
       | c # _ \<Rightarrow> ret (cust_id c))"

text \<open>Step 2: create the vehicle if make and model are given.\<close>

definition create_vehicle :: "services \<Rightarrow> booking_data \<Rightarrow> ident \<Rightarrow> ident option proc" where
  "create_vehicle sv data customerId =
     (if truthy_str (vehicleMake data) \<and> truthy_str (vehicleModel data)
      then andThen (insert_vehicle sv customerId (vehicleMake data) (vehicleModel data)
                      (vehicleYear data)) (\<lambda>i. ret (Some i))
      else ret None)"

text \<open>Step 6: the notification, in its own \<open>try\<close>: a failure is logged with
  \<open>console.warn\<close> and goes no further.\<close>

definition notify_booking_service :: "services \<Rightarrow> notify_payload \<Rightarrow> unit proc" where
  "notify_booking_service sv p w =
     (case axios_post sv p w of
        (Inl e, w1) \<Rightarrow> (Inr (), emit EvWarn w1)
      | (Inr u, w1) \<Rightarrow> (Inr (), w1))"

definition createBooking :: "services \<Rightarrow> booking_data \<Rightarrow> booking_row proc" where
  "createBooking sv data =
     andThen (find_or_create_customer sv data) (\<lambda>customerId.
     andThen (create_vehicle sv data customerId) (\<lambda>vehicleId.
     let scheduledAt = parseDateTime (clk sv) (str_val (preferredDate data))
                         (str_val (preferredTime data))
     in
     andThen (insert_booking sv (workshopId data) customerId vehicleId (callId data)
                scheduledAt (issueSummary data) (issueCategory data) (urgency_of data)
                ''confirmed'') (\<lambda>booking.
     andThen (mark_booking_created sv (callId data)) (\<lambda>_.
     andThen (notify_booking_service sv
                \<lparr>np_bookingId = bk_id booking, np_workshopId = workshopId data,
                 np_customerId = customerId, np_customerEmail = customerEmail data,
                 np_scheduledAt = scheduledAt\<rparr>) (\<lambda>_.
     ret booking)))))"

section \<open>processCallEnded\<close>

record call_ended = call_ref +
  vapiCallId :: "string option"
  duration :: "int option"
  cost :: real
  endReason :: "string option"
  recording :: "string option"
  transcript :: "string option"
  structuredData :: structured_data
  sentiment :: "sentiment_obj option"

text \<open>\<open>sentiment?.label || 'neutral'\<close>\<close>

definition sentiment_label :: "sentiment_obj option \<Rightarrow> string" where
  "sentiment_label s = (case s of None \<Rightarrow> ''neutral'' | Some x \<Rightarrow> or_str (label x) ''neutral'')"

text \<open>The row of step 2, from the parameter list of the \<open>INSERT\<close>.\<close>

definition analysis_params :: "call_ended \<Rightarrow> analysis_row" where
  "analysis_params data =
     (let sd = structuredData data
      in \<lparr>ca_call_id = callId data,
          ca_structured_data = sd,
          ca_customer_name = customer_name sd,
          ca_customer_phone = customer_phone sd,
          ca_vehicle_make = vehicle_make sd,
          ca_vehicle_model = vehicle_model sd,
          ca_issue_keywords = issue_summary sd,
          ca_sentiment = sentiment_label (sentiment data),
          ca_booking_created = truthy_bool (booking_confirmed sd)\<rparr>)"

definition bookingData :: "call_ended \<Rightarrow> booking_data" where
  "bookingData data =
     (let sd = structuredData data
      in \<lparr>callId = callId data,
          workshopId = workshopId data,
          customerName = customer_name sd,
          customerPhone = customer_phone sd,
          customerEmail = customer_email sd,
          vehicleMake = vehicle_make sd,
          vehicleModel = vehicle_model sd,
          vehicleYear = vehicle_year sd,
          issueSummary = issue_summary sd,
          issueCategory = or_str (issue_category sd) ''other'',
          urgency_of = or_str (urgency sd) ''normal'',
          preferredDate = preferred_date sd,
          preferredTime = preferred_time sd\<rparr>)"

text \<open>The condition of step 3.\<close>

definition wants_booking :: "call_ended \<Rightarrow> bool" where
  "wants_booking data =
     (truthy_bool (booking_confirmed (structuredData data)) \<and>
      truthy_str (customer_name (structuredData data)))"

text \<open>The body of the \<open>try\<close> block, from \<open>BEGIN\<close> to \<open>COMMIT\<close>.\<close>

definition processCallEnded_try :: "services \<Rightarrow> call_ended \<Rightarrow> unit proc" where
  "processCallEnded_try sv data =
     andThen (tx_begin sv) (\<lambda>_.
     andThen (update_call sv ''completed'' (duration data) (cost data) (recording data)
                (transcript data) (callId data)) (\<lambda>_.
     andThen (insert_call_analysis sv (analysis_params data)) (\<lambda>_.
     andThen (if wants_booking data
              then andThen (createBooking sv (bookingData data)) (\<lambda>_. ret ())
              else ret ()) (\<lambda>_.
     tx_commit sv))))"

text \<open>\<open>getClient\<close>, then \<open>try\<close> / \<open>catch\<close> (roll back and rethrow) / \<open>finally\<close>
  (release the client). An exception thrown by the \<open>ROLLBACK\<close> itself replaces the
  original one.\<close>

definition processCallEnded :: "services \<Rightarrow> call_ended \<Rightarrow> unit proc" where
  "processCallEnded sv data w =
     (if connect_fails sv then (Inl ConnectError, w)
      else (case processCallEnded_try sv data w of
              (Inr u, w1) \<Rightarrow> (Inr (), emit EvRelease w1)
            | (Inl e, w1) \<Rightarrow>
                (case tx_rollback sv w1 of
                   (Inl e', w2) \<Rightarrow> (Inl e', emit EvRelease w2)
                 | (Inr u, w2) \<Rightarrow> (Inl e, emit EvRelease w2))))"

section \<open>verifyVapiSignature\<close>

text \<open>
  The request as the verifier reads it: the two headers (absent when the request does not
  carry them) and \<open>req.body\<close>. The routes take \<open>call\<close>, \<open>analysis\<close> and \<open>metadata\<close> out
  of \<open>req.body\<close>, so it is the value that the JSON body parser of the application has made
  of the body that was sent: the verifier never reads the bytes of the body. The type of
  such values is the parameter \<open>'j\<close>.
\<close>

record 'j request =
  x_vapi_signature :: "string option"
  x_vapi_timestamp :: "string option"
  req_body :: 'j

text \<open>
  What the runtime supplies: the hex digest of HMAC-SHA256 under a key, the conversion of
  a string to a number that the subtraction \<open>now - timestamp\<close> applies (\<open>None\<close> is
  NaN), the secret from the environment, the clock, and \<open>JSON.stringify\<close>.
\<close>

record 'j runtime =
  hmac_sha256_hex :: "string \<Rightarrow> string \<Rightarrow> string"
  to_number :: "string \<Rightarrow> real option"
  VAPI_WEBHOOK_SECRET :: string
  date_now :: int
  JSON_stringify :: "'j \<Rightarrow> string"

datatype verify_error = MissingSignatureOrTimestamp | WebhookTimestampTooOld | InvalidSignature

text \<open>A comparison with NaN is false, so a timestamp that is no number passes the
  freshness check.\<close>

definition too_old :: "'j runtime \<Rightarrow> string \<Rightarrow> bool" where
  "too_old rt timestamp =
     (let now = date_now rt div 1000
      in case to_number rt timestamp of
           None \<Rightarrow> False
         | Some t \<Rightarrow> \<bar>real_of_int now - t\<bar> > 300)"

text \<open>The payload that is signed is the timestamp, a dot, and \<open>JSON.stringify(req.body)\<close>:
  the parsed body written out again, not the body as it was sent.\<close>

definition payload :: "'j runtime \<Rightarrow> string \<Rightarrow> 'j \<Rightarrow> string" where
  "payload rt timestamp b = timestamp @ ''.'' @ JSON_stringify rt b"

definition expectedSignature :: "'j runtime \<Rightarrow> string \<Rightarrow> 'j \<Rightarrow> string" where
  "expectedSignature rt timestamp b =
     hmac_sha256_hex rt (VAPI_WEBHOOK_SECRET rt) (payload rt timestamp b)"

definition verifyVapiSignature :: "'j runtime \<Rightarrow> 'j request \<Rightarrow> verify_error + bool" where
  "verifyVapiSignature rt req =
     (if \<not> truthy_str (x_vapi_signature req) \<or> \<not> truthy_str (x_vapi_timestamp req)
      then Inl MissingSignatureOrTimestamp
      else (case (x_vapi_signature req, x_vapi_timestamp req) of
              (Some signature, Some timestamp) \<Rightarrow>
                if too_old rt timestamp then Inl WebhookTimestampTooOld
                else if signature \<noteq> expectedSignature rt timestamp (req_body req)
                     then Inl InvalidSignature
                     else Inr True
            | _ \<Rightarrow> Inl MissingSignatureOrTimestamp))"

text \<open>
  The request as it was sent: the same two headers and the bytes of the body. The body
  parser is mounted by the application, outside the files at hand, and is a parameter
  here: it turns the bytes into \<open>req.body\<close> before the route runs, and a body that it
  rejects (\<open>None\<close>) never reaches the route.
\<close>

record sent_request =
  sent_signature :: "string option"
  sent_timestamp :: "string option"
  sent_body :: string

definition received :: "(string \<Rightarrow> 'j option) \<Rightarrow> sent_request \<Rightarrow> 'j request option" where
  "received parse s =
     (case parse (sent_body s) of
        None \<Rightarrow> None
      | Some j \<Rightarrow>
          Some \<lparr>x_vapi_signature = sent_signature s, x_vapi_timestamp = sent_timestamp s,
                req_body = j\<rparr>)"

definition verify_sent ::
  "'j runtime \<Rightarrow> (string \<Rightarrow> 'j option) \<Rightarrow> sent_request \<Rightarrow> (verify_error + bool) option" where
  "verify_sent rt parse s = map_option (verifyVapiSignature rt) (received parse s)"

section \<open>JSON texts\<close>

text \<open>
  To run the verifier on bodies as they are sent, \<open>JSON.parse\<close> and \<open>JSON.stringify\<close> on a
  fragment of JSON on which the two are simple to write down: the values are \<open>null\<close>, the
  booleans, the non-negative integers of at most fifteen digits written with no leading
  zero (these are numbers that print digit for digit as they were read), strings of ASCII
  characters, arrays, and objects whose keys are distinct and do not start with a digit
  (the keys that \<open>JSON.stringify\<close> lists in the order in which they were read).
\<close>

datatype json =
    JsNull
  | JsBool bool
  | JsNum string
  | JsStr string
  | JsArr "json list"
  | JsObj "(string \<times> json) list"

definition dquote :: char where
  "dquote = CHR 0x22"

definition backslash :: char where
  "backslash = CHR 0x5C"

definition hex_digit :: "nat \<Rightarrow> char" where
  "hex_digit n = ''0123456789abcdef'' ! (n mod 16)"

text \<open>QuoteJSONString: the quote and the backslash are escaped, backspace, tab, line feed,
  form feed and carriage return have their short escapes, any other character below the
  space is written \<open>\u00xy\<close> with lower-case hex digits, and every other character stands
  for itself.\<close>

definition escape_char :: "char \<Rightarrow> string" where
  "escape_char c =
     (let n = (of_char c :: nat)
      in if c = dquote then [backslash, dquote]
         else if c = backslash then [backslash, backslash]
         else if n = 8 then [backslash, CHR ''b'']
         else if n = 9 then [backslash, CHR ''t'']
         else if n = 10 then [backslash, CHR ''n'']
         else if n = 12 then [backslash, CHR ''f'']
         else if n = 13 then [backslash, CHR ''r'']
         else if n < 32 then backslash # ''u00'' @ [hex_digit (n div 16), hex_digit n]
         else [c])"

definition quote :: "string \<Rightarrow> string" where
  "quote s = dquote # concat (map escape_char s) @ [dquote]"

fun join_comma :: "string list \<Rightarrow> string" where
  "join_comma [] = []"
| "join_comma [x] = x"
| "join_comma (x # y # r) = x @ '','' @ join_comma (y # r)"

text \<open>\<open>JSON.stringify\<close> with no indentation: no white space between the tokens.\<close>

fun stringify :: "json \<Rightarrow> string" where
  "stringify JsNull = ''null''"
| "stringify (JsBool b) = (if b then ''true'' else ''false'')"
| "stringify (JsNum n) = n"
| "stringify (JsStr s) = quote s"
| "stringify (JsArr vs) = ''['' @ join_comma (map stringify vs) @ '']''"
| "stringify (JsObj ms) =
     ''{'' @ join_comma (map (\<lambda>m. quote (fst m) @ '':'' @ stringify (snd m)) ms) @ ''}''"

text \<open>The white space of JSON: tab, line feed, carriage return and space.\<close>

definition json_ws :: "char \<Rightarrow> bool" where
  "json_ws c = ((of_char c :: nat) \<in> {9, 10, 13, 32})"

definition skip_ws :: "string \<Rightarrow> string" where
  "skip_ws s = dropWhile json_ws s"

definition hex_val :: "char \<Rightarrow> nat option" where
  "hex_val c =
     (if is_digit c then Some (of_char c - 48)
      else if c \<in> set ''abcdef'' then Some (of_char c - 87)
      else if c \<in> set ''ABCDEF'' then Some (of_char c - 55)
      else None)"

text \<open>The escape \<open>\uXXXX\<close>, with hex digits of either case; only the ASCII characters are
  in the fragment.\<close>

definition unicode_escape :: "char \<Rightarrow> char \<Rightarrow> char \<Rightarrow> char \<Rightarrow> char option" where
  "unicode_escape h1 h2 h3 h4 =
     (case (hex_val h1, hex_val h2, hex_val h3, hex_val h4) of
        (Some a, Some b, Some c, Some d) \<Rightarrow>
          (let n = ((a * 16 + b) * 16 + c) * 16 + d
           in if n < 128 then Some (char_of n) else None)
      | _ \<Rightarrow> None)"

definition simple_escape :: "char \<Rightarrow> char option" where
  "simple_escape e =
     (if e = dquote then Some dquote
      else if e = backslash then Some backslash
      else if e = CHR ''/'' then Some (CHR ''/'')
      else if e = CHR ''b'' then Some (char_of (8 :: nat))
      else if e = CHR ''t'' then Some (char_of (9 :: nat))
      else if e = CHR ''n'' then Some (char_of (10 :: nat))
      else if e = CHR ''f'' then Some (char_of (12 :: nat))
      else if e = CHR ''r'' then Some (char_of (13 :: nat))
      else None)"

definition plain_char :: "char \<Rightarrow> bool" where
  "plain_char c = (32 \<le> (of_char c :: nat) \<and> (of_char c :: nat) < 128)"

fun push :: "char \<Rightarrow> (string \<times> string) option \<Rightarrow> (string \<times> string) option" where
  "push c None = None"
| "push c (Some (s, r)) = Some (c # s, r)"

text \<open>The characters of a string after its opening quote, up to the closing quote: the
  string read, and the rest of the text.\<close>

fun string_body :: "string \<Rightarrow> (string \<times> string) option" where
  "string_body [] = None"
| "string_body (c # r) =
     (if c = dquote then Some ([], r)
      else if c = backslash then
        (case r of
           [] \<Rightarrow> None
         | e # r1 \<Rightarrow>
             if e = CHR ''u'' then
               (case r1 of
                  h1 # h2 # h3 # h4 # r2 \<Rightarrow>
                    (case unicode_escape h1 h2 h3 h4 of
                       None \<Rightarrow> None
                     | Some ch \<Rightarrow> push ch (string_body r2))
                | _ \<Rightarrow> None)
             else (case simple_escape e of
                     None \<Rightarrow> None
                   | Some ch \<Rightarrow> push ch (string_body r1)))
      else if plain_char c then push c (string_body r)
      else None)"

definition number_token :: "string \<Rightarrow> (string \<times> string) option" where
  "number_token s =
     (let ds = takeWhile is_digit s; r = dropWhile is_digit s
      in if ds \<noteq> [] \<and> length ds \<le> 15 \<and> (length ds = 1 \<or> hd ds \<noteq> CHR ''0'') \<and>
            (case r of [] \<Rightarrow> True | c # _ \<Rightarrow> c \<notin> set ''.eE'')
         then Some (ds, r) else None)"

definition literal :: "string \<Rightarrow> string \<Rightarrow> string option" where
  "literal l s = (if take (length l) s = l then Some (drop (length l) s) else None)"

definition plain_key :: "string \<Rightarrow> (string \<times> json) list \<Rightarrow> bool" where
  "plain_key k ms =
     ((case k of [] \<Rightarrow> True | c # _ \<Rightarrow> \<not> is_digit c) \<and> k \<notin> set (map fst ms))"

text \<open>The parser, by recursive descent; the first argument bounds the depth of the
  recursion, and \<open>None\<close> is a text that is no JSON or is outside the fragment.\<close>

fun parse_value :: "nat \<Rightarrow> string \<Rightarrow> (json \<times> string) option"
  and parse_elements :: "nat \<Rightarrow> string \<Rightarrow> (json list \<times> string) option"
  and parse_members :: "nat \<Rightarrow> string \<Rightarrow> ((string \<times> json) list \<times> string) option" where
  "parse_value 0 s = None"
| "parse_value (Suc n) s =
     (case skip_ws s of
        [] \<Rightarrow> None
      | c # r \<Rightarrow>
          if c = CHR ''['' then
            (case skip_ws r of
               [] \<Rightarrow> None
             | c' # r' \<Rightarrow>
                 if c' = CHR '']'' then Some (JsArr [], r')
                 else (case parse_elements n r of
                         Some (vs, r'') \<Rightarrow> Some (JsArr vs, r'')
                       | None \<Rightarrow> None))
          else if c = CHR ''{'' then
            (case skip_ws r of
               [] \<Rightarrow> None
             | c' # r' \<Rightarrow>
                 if c' = CHR ''}'' then Some (JsObj [], r')
                 else (case parse_members n r of
                         Some (ms, r'') \<Rightarrow> Some (JsObj ms, r'')
                       | None \<Rightarrow> None))
          else if c = dquote then
            (case string_body r of
               Some (str, r') \<Rightarrow> Some (JsStr str, r')
             | None \<Rightarrow> None)
          else if is_digit c then
            (case number_token (c # r) of
               Some (ds, r') \<Rightarrow> Some (JsNum ds, r')
             | None \<Rightarrow> None)
          else (case literal ''true'' (c # r) of
                  Some r' \<Rightarrow> Some (JsBool True, r')
                | None \<Rightarrow>
                    (case literal ''false'' (c # r) of
                       Some r' \<Rightarrow> Some (JsBool False, r')
                     | None \<Rightarrow>
                         (case literal ''null'' (c # r) of
                            Some r' \<Rightarrow> Some (JsNull, r')
                          | None \<Rightarrow> None))))"
| "parse_elements 0 s = None"
| "parse_elements (Suc n) s =
     (case parse_value n s of
        None \<Rightarrow> None
      | Some (v, r) \<Rightarrow>
          (case skip_ws r of
             [] \<Rightarrow> None
           | c # r' \<Rightarrow>
               if c = CHR '']'' then Some ([v], r')
               else if c = CHR '','' then
                 (case parse_elements n r' of
                    Some (vs, r'') \<Rightarrow> Some (v # vs, r'')
                  | None \<Rightarrow> None)
               else None))"
| "parse_members 0 s = None"
| "parse_members (Suc n) s =
     (case skip_ws s of
        [] \<Rightarrow> None
      | q # r0 \<Rightarrow>
          if q \<noteq> dquote then None
          else (case string_body r0 of
                  None \<Rightarrow> None
                | Some (k, r1) \<Rightarrow>
                    (case skip_ws r1 of
                       [] \<Rightarrow> None
                     | col # r2 \<Rightarrow>
                         if col \<noteq> CHR '':'' then None
                         else (case parse_value n r2 of
                                 None \<Rightarrow> None
                               | Some (v, r3) \<Rightarrow>
                                   (case skip_ws r3 of
                                      [] \<Rightarrow> None
                                    | c # r4 \<Rightarrow>
                                        if c = CHR ''}'' then
                                          (if plain_key k [] then Some ([(k, v)], r4)
                                           else None)
                                        else if c = CHR '','' then
                                          (case parse_members n r4 of
                                             Some (ms, r5) \<Rightarrow>
                                               if plain_key k ms then Some ((k, v) # ms, r5)
                                               else None
                                           | None \<Rightarrow> None)
                                        else None)))))"

text \<open>The body parser in its strict mode: the text is one object or one array, with white
  space around it at most.\<close>

definition parse_json :: "string \<Rightarrow> json option" where
  "parse_json s =
     (case parse_value (2 * length s + 2) s of
        Some (JsArr vs, r) \<Rightarrow> if skip_ws r = [] then Some (JsArr vs) else None
      | Some (JsObj ms, r) \<Rightarrow> if skip_ws r = [] then Some (JsObj ms) else None
      | _ \<Rightarrow> None)"

section \<open>Properties of traces, the conversion of hours, and sample inputs\<close>

text \<open>The conversion from the 12-hour to the 24-hour clock in the words of the
  specification: 12pm is 12, 12am is 0, N pm is N + 12 for N below 12.\<close>

definition spec_hour24 :: "int \<Rightarrow> string option \<Rightarrow> int" where
  "spec_hour24 n ap =
     (case ap of
        None \<Rightarrow> n
      | Some a \<Rightarrow>
          if toLowerCase a = ''pm'' then (if n < 12 then n + 12 else n)
          else if toLowerCase a = ''am'' then (if n = 12 then 0 else n)
          else n)"

text \<open>The events a run has added to the trace.\<close>

definition new_events :: "world \<Rightarrow> world \<Rightarrow> event list" where
  "new_events w w' = drop (length (trace w)) (trace w')"

fun is_post :: "event \<Rightarrow> bool" where
  "is_post (EvPost p) = True"
| "is_post _ = False"

text \<open>The events before the first notification request, and from it on.\<close>

definition before_post :: "event list \<Rightarrow> event list" where
  "before_post evs = takeWhile (\<lambda>e. \<not> is_post e) evs"

definition from_post :: "event list \<Rightarrow> event list" where
  "from_post evs = dropWhile (\<lambda>e. \<not> is_post e) evs"

text \<open>The reading of the specification: no notification request is sent unless a
  \<open>COMMIT\<close> went before it.\<close>

definition post_after_commit :: "event list \<Rightarrow> bool" where
  "post_after_commit evs = (from_post evs = [] \<or> EvSql Commit \<in> set (before_post evs))"

text \<open>Two clocks at the instant 2025-01-30T14:00:00Z: one in UTC, one five hours west
  of it.\<close>

definition clock_utc :: clock where
  "clock_utc = \<lparr>now_ms = 1738245600000, local_tza = 0\<rparr>"

definition clock_west :: clock where
  "clock_west = \<lparr>now_ms = 1738245600000, local_tza = - 18000000\<rparr>"

section \<open>Notions used in the proofs, and sample inputs\<close>

text \<open>A procedure that, run in an open transaction, leaves the committed data alone and
  the transaction open; and one that leaves the committed data alone whenever it fails.\<close>

definition uncommitted :: "'a proc \<Rightarrow> bool" where
  "uncommitted m =
     (\<forall>w. tx w \<noteq> None \<longrightarrow> committed (snd (m w)) = committed w \<and> tx (snd (m w)) \<noteq> None)"

definition keeps_on_failure :: "'a proc \<Rightarrow> bool" where
  "keeps_on_failure m =
     (\<forall>w. tx w \<noteq> None \<longrightarrow>
        (case m w of (Inl e, w1) \<Rightarrow> committed w1 = committed w | (Inr x, w1) \<Rightarrow> True))"

text \<open>Events that are statements on the data (no transaction control, no request), and
  procedures that add only such events to the trace.\<close>

fun data_event :: "event \<Rightarrow> bool" where
  "data_event (EvSql q) = (q \<noteq> Begin \<and> q \<noteq> Commit \<and> q \<noteq> Rollback)"
| "data_event _ = False"

definition quiet :: "'a proc \<Rightarrow> bool" where
  "quiet m = (\<forall>w. \<exists>evs. trace (snd (m w)) = trace w @ evs \<and> list_all data_event evs)"


text \<open>The \<open>INSERT\<close> that created a booking row, and the body of the notification
  request for it.\<close>

definition booking_stmt :: "booking_data \<Rightarrow> booking_row \<Rightarrow> stmt" where
  "booking_stmt data b =
     InsertBooking (workshopId data) (bk_customer_id b) (bk_vehicle_id b) (callId data)
       (bk_scheduled_at b) (issueSummary data) (issueCategory data) (urgency_of data) ''confirmed''"

definition booking_payload :: "booking_data \<Rightarrow> booking_row \<Rightarrow> notify_payload" where
  "booking_payload data b =
     \<lparr>np_bookingId = bk_id b, np_workshopId = workshopId data, np_customerId = bk_customer_id b,
      np_customerEmail = customerEmail data, np_scheduledAt = bk_scheduled_at b\<rparr>"


text \<open>Two worlds with the same data (they may differ in their traces), and two procedures
  that cannot be told apart by results and data.\<close>

definition same_data :: "world \<Rightarrow> world \<Rightarrow> bool" where
  "same_data w w' = (committed w = committed w' \<and> tx w = tx w' \<and> id_seq w = id_seq w')"

definition post_blind :: "'a proc \<Rightarrow> 'a proc \<Rightarrow> bool" where
  "post_blind m m' =
     (\<forall>w w'. same_data w w' \<longrightarrow>
        fst (m w) = fst (m' w') \<and> same_data (snd (m w)) (snd (m' w')))"

text \<open>Sample inputs: a confirmed booking for a caller with a name, phone and vehicle; the
  same without a name; a second call of the same caller; a database that holds the two
  calls; services that work, that reject the booking insert, and whose notification
  endpoint is down.\<close>

fun is_insert_booking :: "stmt \<Rightarrow> bool" where
  "is_insert_booking (InsertBooking a b c d e f g h i) = True"
| "is_insert_booking _ = False"

definition sd_confirmed :: structured_data where
  "sd_confirmed =
     \<lparr>customer_name = Some ''Ann'', customer_phone = Some ''555-0100'',
      customer_email = Some ''ann@example.org'', vehicle_make = Some ''Ford'',
      vehicle_model = Some ''Focus'', vehicle_year = Some 2015,
      issue_summary = Some ''brakes squeal'', issue_category = Some ''brakes'',
      urgency = None, preferred_date = Some ''today'', preferred_time = Some ''2:30 pm'',
      booking_confirmed = Some True\<rparr>"

definition call_ended_1 :: call_ended where
  "call_ended_1 =
     \<lparr>callId = 1, workshopId = 7, vapiCallId = Some ''v-1'', duration = Some 120, cost = 0,
      endReason = None, recording = None, transcript = Some ''hello'',
      structuredData = sd_confirmed, sentiment = None\<rparr>"

definition db_0 :: db where
  "db_0 =
     \<lparr>calls = [\<lparr>call_id = 1, call_status = ''in-progress'', ended_at = None,
                 duration_seconds = None, cost_usd = 0, recording_url = None,
                 call_transcript = None\<rparr>,
               \<lparr>call_id = 2, call_status = ''in-progress'', ended_at = None,
                 duration_seconds = None, cost_usd = 0, recording_url = None,
                 call_transcript = None\<rparr>],
      call_analysis = [], customers = [], vehicles = [], bookings = []\<rparr>"

definition world_0 :: world where
  "world_0 = \<lparr>committed = db_0, tx = None, id_seq = 100, trace = []\<rparr>"

definition services_ok :: services where
  "services_ok =
     \<lparr>clk = clock_utc, db_now = 1738245600000, connect_fails = False,
      db_fails = (\<lambda>q d. False), post_fails = (\<lambda>p. False)\<rparr>"

definition services_booking_rejected :: services where
  "services_booking_rejected = services_ok\<lparr>db_fails := (\<lambda>q d. is_insert_booking q)\<rparr>"

definition services_post_down :: services where
  "services_post_down = services_ok\<lparr>post_fails := (\<lambda>p. True)\<rparr>"

definition call_ended_no_name :: call_ended where
  "call_ended_no_name = call_ended_1\<lparr>structuredData := sd_confirmed\<lparr>customer_name := None\<rparr>\<rparr>"

definition call_ended_2 :: call_ended where
  "call_ended_2 = call_ended_1\<lparr>callId := 2, vapiCallId := Some ''v-2''\<rparr>"

text \<open>The booking, the database, the events and the world that the first sample call leaves
  behind when everything works.\<close>

definition booking_1 :: booking_row where
  "booking_1 =
     \<lparr>bk_id = 102, bk_workshop_id = 7, bk_customer_id = 100, bk_vehicle_id = Some 101,
      bk_call_id = 1, bk_scheduled_at = Some 1738247400000,
      bk_issue_summary = Some ''brakes squeal'', bk_issue_category = ''brakes'',
      bk_urgency = ''normal'', bk_status = ''confirmed''\<rparr>"

definition db_1 :: db where
  "db_1 =
     \<lparr>calls = [\<lparr>call_id = 1, call_status = ''completed'', ended_at = Some 1738245600000,
                 duration_seconds = Some 120, cost_usd = 0, recording_url = None,
                 call_transcript = Some ''hello''\<rparr>,
               \<lparr>call_id = 2, call_status = ''in-progress'', ended_at = None,
                 duration_seconds = None, cost_usd = 0, recording_url = None,
                 call_transcript = None\<rparr>],
      call_analysis = [(analysis_params call_ended_1)\<lparr>ca_booking_created := True\<rparr>],
      customers = [\<lparr>cust_id = 100, cust_workshop_id = 7, cust_name = Some ''Ann'',
                     cust_phone = Some ''555-0100'', cust_email = Some ''ann@example.org''\<rparr>],
      vehicles = [\<lparr>veh_id = 101, veh_customer_id = 100, veh_make = Some ''Ford'',
                    veh_model = Some ''Focus'', veh_year = Some 2015\<rparr>],
      bookings = [booking_1]\<rparr>"

definition trace_1 :: "event list" where
  "trace_1 =
     [EvSql Begin,
      EvSql (UpdateCall ''completed'' (Some 120) 0 None (Some ''hello'') 1),
      EvSql (InsertCallAnalysis (analysis_params call_ended_1)),
      EvSql (SelectCustomer 7 (Some ''555-0100'')),
      EvSql (InsertCustomer 7 (Some ''Ann'') (Some ''555-0100'') (Some ''ann@example.org'')),
      EvSql (InsertVehicle 100 (Some ''Ford'') (Some ''Focus'') (Some 2015)),
      EvSql (booking_stmt (bookingData call_ended_1) booking_1),
      EvSql (MarkBookingCreated 1),
      EvPost (booking_payload (bookingData call_ended_1) booking_1),
      EvSql Commit,
      EvRelease]"

definition world_1 :: world where
  "world_1 = \<lparr>committed = db_1, tx = None, id_seq = 103, trace = trace_1\<rparr>"

text \<open>A stand-in for the keyed digest and for the conversion to a number, to run the
  verifier on: the digest is any function of key and message.\<close>

definition toy_mac :: "string \<Rightarrow> string \<Rightarrow> string" where
  "toy_mac key msg = rev msg @ key"

definition decimal_number :: "string \<Rightarrow> real option" where
  "decimal_number s =
     (if s \<noteq> [] \<and> list_all is_digit s then Some (real_of_int (parseInt s)) else None)"

definition runtime_demo :: "json runtime" where
  "runtime_demo =
     \<lparr>hmac_sha256_hex = toy_mac, to_number = decimal_number, VAPI_WEBHOOK_SECRET = ''s'',
      date_now = 1738245600000, JSON_stringify = stringify\<rparr>"

text \<open>A body in the form in which \<open>JSON.stringify\<close> writes it, the same body with the hex
  digit of the escape in upper case (one byte altered), the same body with a space after
  the colon (one byte added), and a body with another note.\<close>

definition body_signed :: string where
  "body_signed = ''{'' @ [dquote] @ ''note'' @ [dquote] @ '':'' @
                 [dquote] @ ''a'' @ [backslash] @ ''u001fb'' @ [dquote] @ ''}''"

definition body_altered :: string where
  "body_altered = ''{'' @ [dquote] @ ''note'' @ [dquote] @ '':'' @
                  [dquote] @ ''a'' @ [backslash] @ ''u001Fb'' @ [dquote] @ ''}''"

definition body_spaced :: string where
  "body_spaced = ''{'' @ [dquote] @ ''note'' @ [dquote] @ '': '' @
                 [dquote] @ ''a'' @ [backslash] @ ''u001fb'' @ [dquote] @ ''}''"

definition body_forged :: string where
  "body_forged = ''{'' @ [dquote] @ ''note'' @ [dquote] @ '':'' @
                 [dquote] @ ''c'' @ [backslash] @ ''u001fb'' @ [dquote] @ ''}''"

definition note_value :: json where
  "note_value = JsObj [(''note'', JsStr (''a'' @ [char_of (31 :: nat)] @ ''b''))]"

definition forged_value :: json where
  "forged_value = JsObj [(''note'', JsStr (''c'' @ [char_of (31 :: nat)] @ ''b''))]"

text \<open>The request that the sender signed: the signature is the digest over the timestamp,
  a dot and the body as sent.\<close>

definition sent_demo :: sent_request where
  "sent_demo =
     \<lparr>sent_signature = Some (toy_mac ''s'' (''1738245600.'' @ body_signed)),
      sent_timestamp = Some ''1738245600'', sent_body = body_signed\<rparr>"

text \<open>The same request as the route gets it.\<close>

definition request_demo :: "json request" where
  "request_demo =
     \<lparr>x_vapi_signature = Some (toy_mac ''s'' (''1738245600.'' @ body_signed)),
      x_vapi_timestamp = Some ''1738245600'', req_body = note_value\<rparr>"

section \<open>Facts about dates and the time pattern\<close>

lemmas ms_defs = msPerDay_def msPerHour_def msPerMinute_def
lemmas date_defs = Day_def TimeWithinDay_def MakeTime_def MakeDate_def LocalTime_def UTC_def

lemma Day_local_next: "Day (LocalTime ck (UTC ck (MakeDate d (TimeWithinDay t)))) = d"
  by (simp add: date_defs ms_defs)

lemma tomorrow_10_local:
  "tomorrow_10 ck = Some (UTC ck (MakeDate (Day (LocalTime ck (now_ms ck)) + 1) (MakeTime 10 0 0 0)))"
  by (simp add: tomorrow_10_def setHours_def setDate_next_def new_Date_def Day_local_next)

lemma no_colon_at: "CHR '':'' \<notin> set s \<Longrightarrow> time_match_at s = None"
  apply (cases s; simp add: time_match_at_def after_hour_def split: option.splits prod.splits if_splits)
  subgoal for a r
    apply (cases r; simp)
    subgoal for b r2 by (cases r2; auto)
    done
  done

lemma no_colon_search: "CHR '':'' \<notin> set s \<Longrightarrow> time_search s = None"
  by (induction s) (simp_all add: no_colon_at)

lemma colon_not_digit: "\<not> is_digit CHR '':''" by (simp add: is_digit_def)

lemma search_h_mm:
  "is_digit h \<Longrightarrow> is_digit m1 \<Longrightarrow> is_digit m2 \<Longrightarrow>
   time_search (h # CHR '':'' # m1 # m2 # r) = Some ([h], [m1, m2], ampm_group (dropWhile is_space r))"
  by (simp add: time_match_at_def after_hour_def colon_not_digit)

lemma search_hh_mm:
  "is_digit h1 \<Longrightarrow> is_digit h2 \<Longrightarrow> is_digit m1 \<Longrightarrow> is_digit m2 \<Longrightarrow>
   time_search (h1 # h2 # CHR '':'' # m1 # m2 # r) = Some ([h1, h2], [m1, m2], ampm_group (dropWhile is_space r))"
  by (simp add: time_match_at_def after_hour_def colon_not_digit)

lemma hour_minute_spec: "hour_minute (h, m, ap) = (spec_hour24 (parseInt h) ap, parseInt m)"
  by (cases ap) (auto simp: hour_minute_def group_is_def spec_hour24_def Let_def)

lemma parse_falsy_time:
  "ds \<noteq> [] \<Longrightarrow> \<not> truthy time \<Longrightarrow> parseDateTime ck (JStr ds) time = setHours ck (target_date ck ds) 10 0"
  by (simp add: parseDateTime_def parseDateTime_try_def parse_time_def)

lemma parse_str_time:
  "ds \<noteq> [] \<Longrightarrow> parseDateTime ck (JStr ds) (JStr ts) =
     (case time_search ts of None \<Rightarrow> setHours ck (target_date ck ds) 10 0
      | Some (h, m, ap) \<Rightarrow> setHours ck (target_date ck ds) (spec_hour24 (parseInt h) ap) (parseInt m))"
  by (cases ts) (auto simp: parseDateTime_def parseDateTime_try_def parse_time_def hour_minute_spec split: option.splits)

lemma today_target: "target_date ck ''today'' = Some (now_ms ck)"
  by (simp add: target_date_def toLowerCase_def lower_char_def new_Date_def)

lemma iso_target: "target_date ck ''2025-01-30'' = Some (MakeDate (MakeDay 2025 0 30) 0)"
  by (simp add: target_date_def new_Date_iso_def is_digit_def parseInt_def digit_val_def)

lemma iso_day: "0 \<le> local_tza ck \<Longrightarrow> local_tza ck < msPerDay \<Longrightarrow> Day (LocalTime ck (MakeDate d 0)) = d"
  by (simp add: date_defs ms_defs)


lemma parse_error_fallback:
  "truthy date \<Longrightarrow> parseDateTime_try ck date time = Inl e \<Longrightarrow>
   parseDateTime ck date time = tomorrow_10 ck"
  by (simp add: parseDateTime_def)

lemma date_not_string_raises:
  "truthy date \<Longrightarrow> (\<forall>s. date \<noteq> JStr s) \<Longrightarrow> parseDateTime_try ck date time = Inl TypeError"
  by (cases date) (simp_all add: parseDateTime_try_def)

lemma time_not_string_raises:
  "truthy time \<Longrightarrow> (\<forall>s. time \<noteq> JStr s) \<Longrightarrow> parseDateTime_try ck (JStr ds) time = Inl TypeError"
  by (cases time) (simp_all add: parseDateTime_try_def parse_time_def)

text \<open>
  The rules for the date that hold on the code: an absent date, "tomorrow" and any string
  that is neither a date pattern nor "today" give the next local day; "today" gives the
  local day; a \<open>TypeError\<close> in the \<open>try\<close> block gives tomorrow at 10:00; and a
  YYYY-MM-DD string with month 01..12 and day 01..31 gives that day when the local time
  zone is at or east of UTC.
\<close>

lemma parseDateTime_date_rules:
  "(\<not> truthy date \<longrightarrow> parseDateTime ck date time = tomorrow_10 ck)
 \<and> (ds \<noteq> [] \<and> \<not> iso_shape ds \<and> toLowerCase ds \<noteq> ''today'' \<longrightarrow>
      target_date ck ds = setDate_next ck (new_Date ck))
 \<and> (toLowerCase ds = ''today'' \<longrightarrow> target_date ck ds = new_Date ck)
 \<and> (toLowerCase ds = ''tomorrow'' \<longrightarrow> target_date ck ds = setDate_next ck (new_Date ck))
 \<and> (truthy date \<and> (\<forall>s. date \<noteq> JStr s) \<longrightarrow> parseDateTime ck date time = tomorrow_10 ck)
 \<and> (truthy time \<and> (\<forall>s. time \<noteq> JStr s) \<and> ds \<noteq> [] \<longrightarrow>
      parseDateTime ck (JStr ds) time = tomorrow_10 ck)
 \<and> (iso_shape ds \<and> new_Date_iso ds = Some t \<and> 0 \<le> local_tza ck \<and> local_tza ck < msPerDay \<longrightarrow>
      parseDateTime ck (JStr ds) JUndefined =
        Some (UTC ck (MakeDate (Day t) (MakeTime 10 0 0 0))))"
proof -
  have iso_today: "iso_shape ds \<Longrightarrow> toLowerCase ds \<noteq> ''today''"
    by (auto simp: toLowerCase_def)
  have iso_tomorrow: "iso_shape ds \<Longrightarrow> toLowerCase ds \<noteq> ''tomorrow''"
    by (auto simp: toLowerCase_def)
  have iso_ne: "iso_shape ds \<Longrightarrow> ds \<noteq> []"
    by auto
  have day: "0 \<le> local_tza ck \<Longrightarrow> local_tza ck < msPerDay \<Longrightarrow>
             new_Date_iso ds = Some t \<Longrightarrow> Day (LocalTime ck t) = Day t"
    by (auto simp: new_Date_iso_def Let_def date_defs ms_defs split: if_splits)
  have iso: "iso_shape ds \<and> new_Date_iso ds = Some t \<and> 0 \<le> local_tza ck \<and> local_tza ck < msPerDay \<longrightarrow>
      parseDateTime ck (JStr ds) JUndefined =
        Some (UTC ck (MakeDate (Day t) (MakeTime 10 0 0 0)))"
  proof (intro impI, elim conjE)
    assume h: "iso_shape ds" "new_Date_iso ds = Some t" "0 \<le> local_tza ck" "local_tza ck < msPerDay"
    have "parseDateTime ck (JStr ds) JUndefined = setHours ck (target_date ck ds) 10 0"
      using iso_ne [OF h(1)] by (simp add: parse_falsy_time)
    also have "target_date ck ds = Some t"
      using h by (simp add: target_date_def)
    finally show "parseDateTime ck (JStr ds) JUndefined =
        Some (UTC ck (MakeDate (Day t) (MakeTime 10 0 0 0)))"
      using day [OF h(3) h(4) h(2)] by (simp add: setHours_def)
  qed
  have rest: "(\<not> truthy date \<longrightarrow> parseDateTime ck date time = tomorrow_10 ck)
 \<and> (ds \<noteq> [] \<and> \<not> iso_shape ds \<and> toLowerCase ds \<noteq> ''today'' \<longrightarrow>
      target_date ck ds = setDate_next ck (new_Date ck))
 \<and> (toLowerCase ds = ''today'' \<longrightarrow> target_date ck ds = new_Date ck)
 \<and> (toLowerCase ds = ''tomorrow'' \<longrightarrow> target_date ck ds = setDate_next ck (new_Date ck))
 \<and> (truthy date \<and> (\<forall>s. date \<noteq> JStr s) \<longrightarrow> parseDateTime ck date time = tomorrow_10 ck)
 \<and> (truthy time \<and> (\<forall>s. time \<noteq> JStr s) \<and> ds \<noteq> [] \<longrightarrow>
      parseDateTime ck (JStr ds) time = tomorrow_10 ck)"
    using iso_today iso_tomorrow
    by (auto simp: parseDateTime_def target_date_def date_not_string_raises
          time_not_string_raises)
  from rest iso show ?thesis by blast
qed

section \<open>Time parsing (claim C6)\<close>

text \<open>
  C6, as the code has it. With a date string present: an absent or empty time gives 10:00;
  a time string is searched, without regard to case, for the first occurrence of one or two
  hour digits, a colon and two minute digits (the colon and the minutes are required), then
  white space and an optional am or pm; the hour is converted to the 24-hour clock (12pm
  is 12, 12am is 0, N pm is N + 12 for N below 12); a string without such an occurrence,
  as every string without a colon, gives 10:00. So "today" with "9am" is today at 10:00,
  "today" with "2:30 pm" is today at 14:30, and in a time zone at or east of UTC
  "2025-01-30" with "2:30 pm" is 2025-01-30 at 14:30 local time.
\<close>

theorem C6_time_rules:
  assumes "ds \<noteq> []"
  shows "(\<not> truthy time \<longrightarrow>
            parseDateTime ck (JStr ds) time = setHours ck (target_date ck ds) 10 0)
       \<and> (time_search ts = None \<longrightarrow>
            parseDateTime ck (JStr ds) (JStr ts) = setHours ck (target_date ck ds) 10 0)
       \<and> (\<forall>h m ap. time_search ts = Some (h, m, ap) \<longrightarrow>
            parseDateTime ck (JStr ds) (JStr ts) =
              setHours ck (target_date ck ds) (spec_hour24 (parseInt h) ap) (parseInt m))
       \<and> (CHR '':'' \<notin> set ts \<longrightarrow> time_search ts = None)
       \<and> (\<forall>h m1 m2 r. is_digit h \<and> is_digit m1 \<and> is_digit m2 \<longrightarrow>
            time_search (h # CHR '':'' # m1 # m2 # r) =
              Some ([h], [m1, m2], ampm_group (dropWhile is_space r)))
       \<and> (\<forall>h1 h2 m1 m2 r. is_digit h1 \<and> is_digit h2 \<and> is_digit m1 \<and> is_digit m2 \<longrightarrow>
            time_search (h1 # h2 # CHR '':'' # m1 # m2 # r) =
              Some ([h1, h2], [m1, m2], ampm_group (dropWhile is_space r)))
       \<and> parseDateTime ck (JStr ''today'') (JStr ''9am'') =
            Some (UTC ck (MakeDate (Day (LocalTime ck (now_ms ck))) (MakeTime 10 0 0 0)))
       \<and> parseDateTime ck (JStr ''today'') (JStr ''2:30 pm'') =
            Some (UTC ck (MakeDate (Day (LocalTime ck (now_ms ck))) (MakeTime 14 30 0 0)))
       \<and> (0 \<le> local_tza ck \<and> local_tza ck < msPerDay \<longrightarrow>
            parseDateTime ck (JStr ''2025-01-30'') (JStr ''2:30 pm'') =
              Some (UTC ck (MakeDate (MakeDay 2025 0 30) (MakeTime 14 30 0 0))))"
proof -
  have a: "\<not> truthy time \<longrightarrow>
            parseDateTime ck (JStr ds) time = setHours ck (target_date ck ds) 10 0"
    using assms by (simp add: parse_falsy_time)
  have b: "time_search ts = None \<longrightarrow>
            parseDateTime ck (JStr ds) (JStr ts) = setHours ck (target_date ck ds) 10 0"
    using assms by (simp add: parse_str_time)
  have c: "\<forall>h m ap. time_search ts = Some (h, m, ap) \<longrightarrow>
            parseDateTime ck (JStr ds) (JStr ts) =
              setHours ck (target_date ck ds) (spec_hour24 (parseInt h) ap) (parseInt m)"
    using assms by (simp add: parse_str_time)
  have d: "CHR '':'' \<notin> set ts \<longrightarrow> time_search ts = None"
    by (simp add: no_colon_search)
  have e: "\<forall>h m1 m2 r. is_digit h \<and> is_digit m1 \<and> is_digit m2 \<longrightarrow>
            time_search (h # CHR '':'' # m1 # m2 # r) =
              Some ([h], [m1, m2], ampm_group (dropWhile is_space r))"
    using search_h_mm by blast
  have f: "\<forall>h1 h2 m1 m2 r. is_digit h1 \<and> is_digit h2 \<and> is_digit m1 \<and> is_digit m2 \<longrightarrow>
            time_search (h1 # h2 # CHR '':'' # m1 # m2 # r) =
              Some ([h1, h2], [m1, m2], ampm_group (dropWhile is_space r))"
    using search_hh_mm by blast
  have s1: "time_search ''9am'' = None"
    by (rule no_colon_search) simp
  have s2: "time_search ''2:30 pm'' = Some (''2'', ''30'', Some ''pm'')"
    by (simp add: time_match_at_def after_hour_def is_digit_def is_space_def)
  have h2: "spec_hour24 (parseInt ''2'') (Some ''pm'') = 14" "parseInt ''30'' = 30"
    by (simp_all add: spec_hour24_def parseInt_def digit_val_def toLowerCase_def lower_char_def)
  have g: "parseDateTime ck (JStr ''today'') (JStr ''9am'') =
            Some (UTC ck (MakeDate (Day (LocalTime ck (now_ms ck))) (MakeTime 10 0 0 0)))"
    by (simp add: parse_str_time s1 today_target setHours_def del: time_search.simps)
  have h: "parseDateTime ck (JStr ''today'') (JStr ''2:30 pm'') =
            Some (UTC ck (MakeDate (Day (LocalTime ck (now_ms ck))) (MakeTime 14 30 0 0)))"
    by (simp add: parse_str_time s2 h2 today_target setHours_def del: time_search.simps)
  have i: "0 \<le> local_tza ck \<and> local_tza ck < msPerDay \<longrightarrow>
            parseDateTime ck (JStr ''2025-01-30'') (JStr ''2:30 pm'') =
              Some (UTC ck (MakeDate (MakeDay 2025 0 30) (MakeTime 14 30 0 0)))"
    by (simp add: parse_str_time s2 h2 iso_target setHours_def iso_day del: time_search.simps)
  from a b c d e f g h i show ?thesis by blast
qed

theorem C6_time_rules_witness:
  "''today'' \<noteq> [] \<and> \<not> truthy JNull \<and> time_search ''noon'' = None \<and>
   time_search ''7:15 PM'' = Some (''7'', ''15'', Some ''PM'') \<and>
   parseDateTime clock_utc (JStr ''today'') JNull = Some (MakeDate 20118 (MakeTime 10 0 0 0)) \<and>
   parseDateTime clock_utc (JStr ''today'') (JStr ''noon'') = Some (MakeDate 20118 (MakeTime 10 0 0 0)) \<and>
   parseDateTime clock_utc (JStr ''today'') (JStr ''7:15 PM'') = Some (MakeDate 20118 (MakeTime 19 15 0 0)) \<and>
   parseDateTime clock_utc (JStr ''2025-01-30'') (JStr ''2:30 pm'') = Some (MakeDate 20118 (MakeTime 14 30 0 0))"
proof -
  have n: "''today'' \<noteq> []" by simp
  have s1: "time_search ''noon'' = None" by (rule no_colon_search) simp
  have s2: "time_search ''7:15 PM'' = Some (''7'', ''15'', Some ''PM'')"
    by (simp add: time_match_at_def after_hour_def is_digit_def is_space_def)
  have v: "spec_hour24 (parseInt ''7'') (Some ''PM'') = 19" "parseInt ''15'' = 15"
    by (simp_all add: spec_hour24_def parseInt_def digit_val_def toLowerCase_def lower_char_def)
  have t: "setHours clock_utc (target_date clock_utc ''today'') hh mm = Some (MakeDate 20118 (MakeTime hh mm 0 0))" for hh mm
    by (simp add: today_target setHours_def clock_utc_def date_defs ms_defs)
  have z: "0 \<le> local_tza clock_utc \<and> local_tza clock_utc < msPerDay" by (simp add: clock_utc_def ms_defs)
  have u: "UTC clock_utc x = x" for x by (simp add: UTC_def clock_utc_def)
  have md: "MakeDay 2025 0 30 = 20118" by (simp add: MakeDay_def DayFromYear_def month_start_def InLeapYear_def)
  show ?thesis
    using C6_time_rules [OF n, of JNull clock_utc "''noon''"] C6_time_rules [OF n, of JNull clock_utc "''7:15 PM''"] s1 s2 v t z u md
    by (simp del: time_search.simps)
qed

text \<open>
  C6 as stated fails at "today" with "9am": the result is not today at 09:00.
\<close>

theorem C6_counterexample:
  "parseDateTime clock_utc (JStr ''today'') (JStr ''9am'') \<noteq>
     Some (UTC clock_utc (MakeDate (Day (LocalTime clock_utc (now_ms clock_utc))) (MakeTime 9 0 0 0)))"
proof -
  have "time_search ''9am'' = None"
    by (rule no_colon_search) simp
  then show ?thesis
    by (simp add: parse_str_time today_target setHours_def clock_utc_def date_defs ms_defs
          del: time_search.simps)
qed


section \<open>Date parsing (claims C7 and C10)\<close>

text \<open>
  C7 at an input where the code departs from it: five hours west of UTC, the date string
  "2025-01-30" with the time "2:30 pm" gives 14:30 local time on day 2025-01-29, the day
  before the one asked for, because the date-only string is read as midnight UTC and the
  hours are then set in local time. A string of the date shape that names no month, such
  as "2025-13-45", gives an invalid date rather than tomorrow.
\<close>

theorem C7_iso_date_west_of_utc:
  "map_option (LocalTime clock_west)
     (parseDateTime clock_west (JStr ''2025-01-30'') (JStr ''2:30 pm'')) =
     Some (MakeDate (MakeDay 2025 0 29) (MakeTime 14 30 0 0))
   \<and> MakeDay 2025 0 29 = MakeDay 2025 0 30 - 1
   \<and> parseDateTime clock_west (JStr ''2025-13-45'') JUndefined = None"
proof -
  have s2: "time_search ''2:30 pm'' = Some (''2'', ''30'', Some ''pm'')"
    by (simp add: time_match_at_def after_hour_def is_digit_def is_space_def)
  have h2: "spec_hour24 (parseInt ''2'') (Some ''pm'') = 14" "parseInt ''30'' = 30"
    by (simp_all add: spec_hour24_def parseInt_def digit_val_def toLowerCase_def lower_char_def)
  have md: "MakeDay 2025 0 30 = 20118" "MakeDay 2025 0 29 = 20117"
    by (simp_all add: MakeDay_def DayFromYear_def month_start_def InLeapYear_def)
  have a: "map_option (LocalTime clock_west)
     (parseDateTime clock_west (JStr ''2025-01-30'') (JStr ''2:30 pm'')) =
     Some (MakeDate (MakeDay 2025 0 29) (MakeTime 14 30 0 0))"
    by (simp add: parse_str_time s2 h2 iso_target md setHours_def clock_west_def date_defs ms_defs
          del: time_search.simps)
  have b: "parseDateTime clock_west (JStr ''2025-13-45'') JUndefined = None"
    by (simp add: parse_falsy_time target_date_def new_Date_iso_def is_digit_def parseInt_def
          digit_val_def setHours_def)
  from a b md show ?thesis by simp
qed

text \<open>
  C10: when the date is absent (undefined, null or the empty string; any falsy value), the
  result is tomorrow at 10:00 local time whatever the time argument is, a well-formed time
  such as "2:30 pm" included.
\<close>

theorem C10_date_absent_ignores_time:
  "\<not> truthy date \<Longrightarrow>
   parseDateTime ck date time =
     Some (UTC ck (MakeDate (Day (LocalTime ck (now_ms ck)) + 1) (MakeTime 10 0 0 0)))"
  by (simp add: parseDateTime_def tomorrow_10_local)

theorem C10_date_absent_ignores_time_witness:
  "\<not> truthy JNull \<and> \<not> truthy (JStr []) \<and>
   parseDateTime clock_utc JNull (JStr ''2:30 pm'') = Some (MakeDate 20119 (MakeTime 10 0 0 0)) \<and>
   parseDateTime clock_utc (JStr []) (JStr ''2:30 pm'') = Some (MakeDate 20119 (MakeTime 10 0 0 0))"
proof -
  have n: "\<not> truthy JNull" "\<not> truthy (JStr [])" by simp_all
  have d: "UTC clock_utc (MakeDate (Day (LocalTime clock_utc (now_ms clock_utc)) + 1) t) = MakeDate 20119 t" for t
    by (simp add: clock_utc_def date_defs ms_defs)
  show ?thesis
    using C10_date_absent_ignores_time [OF n(1), of clock_utc "JStr ''2:30 pm''"]
      C10_date_absent_ignores_time [OF n(2), of clock_utc "JStr ''2:30 pm''"] d
    by simp
qed

section \<open>Facts about the procedures\<close>

subsection \<open>Failure leaves the committed data alone\<close>

lemma uncommittedI:
  fixes m :: "'a proc"
  assumes "\<And>w d. tx w = Some d \<Longrightarrow> committed (snd (m w)) = committed w \<and> tx (snd (m w)) \<noteq> None"
  shows "uncommitted m"
  using assms by (auto simp: uncommitted_def)

lemma uncommitted_ret: "uncommitted (ret x)"
  by (simp add: uncommitted_def ret_def)

lemma uncommitted_andThen:
  assumes "uncommitted m" and "\<And>x. uncommitted (f x)"
  shows "uncommitted (andThen m f)"
proof (rule uncommittedI)
  fix w :: world and d assume t: "tx w = Some d"
  obtain r w1 where m: "m w = (r, w1)" by (cases "m w")
  from assms(1) t m have w1: "committed w1 = committed w" "tx w1 \<noteq> None"
    by (auto simp: uncommitted_def dest!: spec [of _ w])
  show "committed (snd (andThen m f w)) = committed w \<and> tx (snd (andThen m f w)) \<noteq> None"
  proof (cases r)
    case (Inl e)
    with m w1 show ?thesis by (simp add: andThen_def)
  next
    case (Inr x)
    from assms(2) [of x] w1 have "committed (snd (f x w1)) = committed w1 \<and> tx (snd (f x w1)) \<noteq> None"
      by (simp add: uncommitted_def)
    with Inr m w1 show ?thesis by (simp add: andThen_def)
  qed
qed

lemma uncommitted_query: "uncommitted (query sv q act)"
  by (rule uncommittedI) (simp add: query_def emit_def store_def session_db_def Let_def split: prod.splits)

lemma uncommitted_insert_returning: "uncommitted (insert_returning sv q act)"
  by (rule uncommittedI) (simp add: insert_returning_def emit_def store_def session_db_def Let_def split: prod.splits)

lemma uncommitted_notify: "uncommitted (notify_booking_service sv p)"
  by (rule uncommittedI) (simp add: notify_booking_service_def axios_post_def emit_def Let_def)


lemma uncommitted_find_or_create_customer: "uncommitted (find_or_create_customer sv data)"
  unfolding find_or_create_customer_def select_customer_def insert_customer_def
  by (intro uncommitted_andThen uncommitted_query) (simp add: uncommitted_ret uncommitted_insert_returning split: list.splits)

lemma uncommitted_create_vehicle: "uncommitted (create_vehicle sv data cid)"
  unfolding create_vehicle_def insert_vehicle_def
  by (simp add: uncommitted_andThen uncommitted_ret uncommitted_insert_returning)

lemma uncommitted_createBooking: "uncommitted (createBooking sv data)"
  unfolding createBooking_def Let_def insert_booking_def mark_booking_created_def
  by (intro uncommitted_andThen uncommitted_find_or_create_customer uncommitted_create_vehicle
        uncommitted_insert_returning uncommitted_query uncommitted_notify uncommitted_ret)

lemma uncommitted_booking_step: 
  "uncommitted (if wants_booking data then andThen (createBooking sv (bookingData data)) (\<lambda>_. ret ()) else ret ())"
  by (simp add: uncommitted_andThen uncommitted_createBooking uncommitted_ret)


lemma uncommittedD:
  "uncommitted m \<Longrightarrow> tx w \<noteq> None \<Longrightarrow> m w = (r, w1) \<Longrightarrow> committed w1 = committed w \<and> tx w1 \<noteq> None"
  by (auto simp: uncommitted_def dest!: spec [of _ w])

lemma keeps_on_failureD:
  "keeps_on_failure m \<Longrightarrow> tx w \<noteq> None \<Longrightarrow> m w = (Inl e, w1) \<Longrightarrow> committed w1 = committed w"
  by (auto simp: keeps_on_failure_def dest!: spec [of _ w])

lemma keeps_andThen:
  assumes "uncommitted m" and "\<And>x. keeps_on_failure (f x)"
  shows "keeps_on_failure (andThen m f)"
  unfolding keeps_on_failure_def
proof (intro allI impI)
  fix w :: world assume t: "tx w \<noteq> None"
  obtain r w1 where m: "m w = (r, w1)" by (cases "m w")
  from uncommittedD [OF assms(1) t m] have w1: "committed w1 = committed w" "tx w1 \<noteq> None"
    by simp_all
  show "case andThen m f w of (Inl e, w1) \<Rightarrow> committed w1 = committed w | (Inr x, w1) \<Rightarrow> True"
  proof (cases r)
    case (Inl e)
    with m w1 show ?thesis by (simp add: andThen_def)
  next
    case (Inr x)
    from assms(2) [of x] w1 have "case f x w1 of (Inl e, w2) \<Rightarrow> committed w2 = committed w1 | (Inr x, w2) \<Rightarrow> True"
      by (simp add: keeps_on_failure_def)
    with Inr m w1 show ?thesis by (auto simp: andThen_def split: prod.splits sum.splits)
  qed
qed

lemma keeps_tx_commit: "keeps_on_failure (tx_commit sv)"
  by (simp add: keeps_on_failure_def tx_commit_def emit_def Let_def)

lemma keeps_in_tx:
  "keeps_on_failure
     (andThen (update_call sv ''completed'' (duration data) (cost data) (recording data)
                (transcript data) (callId data)) (\<lambda>_.
      andThen (insert_call_analysis sv (analysis_params data)) (\<lambda>_.
      andThen (if wants_booking data
               then andThen (createBooking sv (bookingData data)) (\<lambda>_. ret ())
               else ret ()) (\<lambda>_.
      tx_commit sv))))"
  unfolding update_call_def insert_call_analysis_def
  by (intro keeps_andThen uncommitted_query uncommitted_booking_step keeps_tx_commit)

lemma try_failure:
  assumes "processCallEnded_try sv data w = (Inl e, w')"
  shows "committed w' = committed w"
proof (cases "db_fails sv Begin (session_db w)")
  case True
  with assms show ?thesis
    by (auto simp: processCallEnded_try_def andThen_def tx_begin_def emit_def Let_def)
next
  case False
  define w1 where "w1 = (emit (EvSql Begin) w)\<lparr>tx := Some (session_db w)\<rparr>"
  have w1: "tx w1 \<noteq> None" "committed w1 = committed w"
    by (simp_all add: w1_def emit_def)
  from False have b: "tx_begin sv w = (Inr (), w1)"
    by (simp add: tx_begin_def w1_def Let_def)
  from assms have "andThen (update_call sv ''completed'' (duration data) (cost data) (recording data)
                (transcript data) (callId data)) (\<lambda>_.
      andThen (insert_call_analysis sv (analysis_params data)) (\<lambda>_.
      andThen (if wants_booking data
               then andThen (createBooking sv (bookingData data)) (\<lambda>_. ret ())
               else ret ()) (\<lambda>_.
      tx_commit sv))) w1 = (Inl e, w')"
    by (simp add: processCallEnded_try_def andThen_def [of "tx_begin sv"] b)
  from keeps_on_failureD [OF keeps_in_tx w1(1) this] w1(2) show ?thesis
    by simp
qed

lemma processCallEnded_failure:
  assumes "processCallEnded sv data w = (Inl e, w')"
  shows "committed w' = committed w"
proof (cases "connect_fails sv")
  case True
  with assms show ?thesis by (simp add: processCallEnded_def)
next
  case False
  obtain r w1 where t: "processCallEnded_try sv data w = (r, w1)"
    by (cases "processCallEnded_try sv data w")
  show ?thesis
  proof (cases r)
    case (Inl e1)
    with t have "committed w1 = committed w" by (simp add: try_failure)
    with assms False t Inl show ?thesis
      by (auto simp: processCallEnded_def tx_rollback_def emit_def Let_def split: if_splits)
  next
    case (Inr u)
    with assms False t show ?thesis by (simp add: processCallEnded_def)
  qed
qed


lemma andThen_Inr_iff:
  "(andThen m f w = (Inr y, w')) = (\<exists>x w1. m w = (Inr x, w1) \<and> f x w1 = (Inr y, w'))"
  by (auto simp: andThen_def split: prod.splits sum.splits)

lemma ret_Inr_iff: "(ret x w = (Inr y, w')) = (y = x \<and> w' = w)"
  by (auto simp: ret_def)

lemma query_Inr_iff:
  "(query sv q act w = (Inr r, w')) =
     (\<not> db_fails sv q (session_db w) \<and> r = fst (act (session_db w)) \<and>
      w' = store (snd (act (session_db w))) (emit (EvSql q) w))"
  by (auto simp: query_def Let_def split: prod.splits)

lemma insert_returning_Inr_iff:
  "(insert_returning sv q act w = (Inr r, w')) =
     (\<not> db_fails sv q (session_db w) \<and> r = fst (act (id_seq w) (session_db w)) \<and>
      w' = store (snd (act (id_seq w) (session_db w))) ((emit (EvSql q) w)\<lparr>id_seq := Suc (id_seq w)\<rparr>))"
  by (auto simp: insert_returning_def Let_def split: prod.splits)

lemma notify_eq:
  "notify_booking_service sv p w =
     (Inr (), if post_fails sv p then emit EvWarn (emit (EvPost p) w) else emit (EvPost p) w)"
  by (simp add: notify_booking_service_def axios_post_def Let_def)

lemma session_db_tx [simp]: "tx w = Some d \<Longrightarrow> session_db w = d"
  by (simp add: session_db_def)

lemma store_tx: "tx w = Some d \<Longrightarrow> store d' w = w\<lparr>tx := Some d'\<rparr>"
  by (simp add: store_def)

lemma find_or_create_customer_ok:
  assumes "find_or_create_customer sv data w = (Inr cid, w1)" and "tx w = Some d"
  shows "committed w1 = committed w \<and>
         (case filter (customer_matches (workshopId data) (customerPhone data)) (customers d) of
            [] \<Rightarrow> tx w1 = Some (d\<lparr>customers := customers d @
                     [\<lparr>cust_id = cid, cust_workshop_id = workshopId data,
                       cust_name = customerName data, cust_phone = customerPhone data,
                       cust_email = customerEmail data\<rparr>]\<rparr>)
          | c # cs \<Rightarrow> tx w1 = Some d \<and> cid = cust_id c)"
  using assms
  by (auto simp: find_or_create_customer_def select_customer_def insert_customer_def
        andThen_Inr_iff ret_Inr_iff query_Inr_iff insert_returning_Inr_iff store_tx emit_def
        split: list.splits)

subsection \<open>What the successful runs do\<close>

lemma tx_emit [simp]: "tx (emit e w) = tx w" "committed (emit e w) = committed w"
  "id_seq (emit e w) = id_seq w" "trace (emit e w) = trace w @ [e]"
  by (simp_all add: emit_def)

lemma create_vehicle_ok:
  assumes "create_vehicle sv data cid w = (Inr vid, w1)" and "tx w = Some d"
  shows "committed w1 = committed w \<and>
         (if truthy_str (vehicleMake data) \<and> truthy_str (vehicleModel data)
          then (\<exists>i. vid = Some i \<and> tx w1 = Some (d\<lparr>vehicles := vehicles d @
                     [\<lparr>veh_id = i, veh_customer_id = cid, veh_make = vehicleMake data,
                       veh_model = vehicleModel data, veh_year = vehicleYear data\<rparr>]\<rparr>))
          else vid = None \<and> tx w1 = Some d)"
  using assms
  by (auto simp: create_vehicle_def insert_vehicle_def
        andThen_Inr_iff ret_Inr_iff insert_returning_Inr_iff store_tx emit_def)

lemma insert_booking_ok:
  assumes "insert_booking sv wid cid vid callid sched summ cat urg st w = (Inr b, w1)" and "tx w = Some d"
  shows "committed w1 = committed w \<and> tx w1 = Some (d\<lparr>bookings := bookings d @ [b]\<rparr>) \<and>
         b = \<lparr>bk_id = id_seq w, bk_workshop_id = wid, bk_customer_id = cid,
                         bk_vehicle_id = vid, bk_call_id = callid, bk_scheduled_at = sched,
                         bk_issue_summary = summ, bk_issue_category = cat, bk_urgency = urg,
                         bk_status = st\<rparr>"
  using assms
  by (auto simp: insert_booking_def insert_returning_Inr_iff store_tx emit_def Let_def)

lemma mark_booking_created_ok:
  assumes "mark_booking_created sv callid w = (Inr u, w1)" and "tx w = Some d"
  shows "committed w1 = committed w \<and>
         tx w1 = Some (d\<lparr>call_analysis :=
          map (\<lambda>a. if ca_call_id a = callid then a\<lparr>ca_booking_created := True\<rparr> else a)
            (call_analysis d)\<rparr>)"
  using assms
  by (auto simp: mark_booking_created_def query_Inr_iff store_tx emit_def)

lemma notify_ok:
  "notify_booking_service sv p w = (r, w1) \<Longrightarrow> r = Inr () \<and> committed w1 = committed w \<and> tx w1 = tx w"
  by (auto simp: notify_eq)

text \<open>What a successful createBooking has done to the working copy.\<close>

lemma createBooking_ok:
  assumes run: "createBooking sv data w = (Inr b, w1)" and t: "tx w = Some d"
  shows "committed w1 = committed w"
    and "\<exists>d1. tx w1 = Some d1 \<and> bookings d1 = bookings d @ [b] \<and> calls d1 = calls d \<and>
           call_analysis d1 = map (\<lambda>a. if ca_call_id a = callId data then a\<lparr>ca_booking_created := True\<rparr> else a)
            (call_analysis d) \<and>
           (case filter (customer_matches (workshopId data) (customerPhone data)) (customers d) of
              [] \<Rightarrow> customers d1 = customers d @
                     [\<lparr>cust_id = bk_customer_id b, cust_workshop_id = workshopId data,
                       cust_name = customerName data, cust_phone = customerPhone data,
                       cust_email = customerEmail data\<rparr>]
            | c # cs \<Rightarrow> customers d1 = customers d \<and> bk_customer_id b = cust_id c) \<and>
           (if truthy_str (vehicleMake data) \<and> truthy_str (vehicleModel data)
            then \<exists>i. bk_vehicle_id b = Some i \<and> vehicles d1 = vehicles d @
                     [\<lparr>veh_id = i, veh_customer_id = bk_customer_id b, veh_make = vehicleMake data,
                       veh_model = vehicleModel data, veh_year = vehicleYear data\<rparr>]
            else bk_vehicle_id b = None \<and> vehicles d1 = vehicles d)"
    and "bk_call_id b = callId data \<and> bk_workshop_id b = workshopId data \<and>
         bk_status b = ''confirmed'' \<and>
         bk_scheduled_at b = parseDateTime (clk sv) (str_val (preferredDate data)) (str_val (preferredTime data)) \<and>
         bk_issue_summary b = issueSummary data \<and> bk_issue_category b = issueCategory data \<and>
         bk_urgency b = urgency_of data"
proof -
  from run obtain cid wa vid wb wc u wd where
    a: "find_or_create_customer sv data w = (Inr cid, wa)" and
    b: "create_vehicle sv data cid wa = (Inr vid, wb)" and
    c: "insert_booking sv (workshopId data) cid vid (callId data)
          (parseDateTime (clk sv) (str_val (preferredDate data)) (str_val (preferredTime data)))
          (issueSummary data) (issueCategory data) (urgency_of data) ''confirmed'' wb = (Inr b, wc)" and
    d: "mark_booking_created sv (callId data) wc = (Inr u, wd)" and
    e: "notify_booking_service sv
                \<lparr>np_bookingId = bk_id b, np_workshopId = workshopId data,
                 np_customerId = cid, np_customerEmail = customerEmail data,
                 np_scheduledAt = parseDateTime (clk sv) (str_val (preferredDate data)) (str_val (preferredTime data))\<rparr> wd = (Inr (), w1)"
    by (auto simp: createBooking_def Let_def andThen_Inr_iff ret_Inr_iff)
  note A = find_or_create_customer_ok [OF a t]
  from A obtain da where ta: "tx wa = Some da" by (auto split: list.splits)
  note B = create_vehicle_ok [OF b ta]
  from B obtain db where tb: "tx wb = Some db" by (auto split: if_splits)
  note C = insert_booking_ok [OF c tb]
  from C have tc: "tx wc = Some (db\<lparr>bookings := bookings db @ [b]\<rparr>)" by simp
  note D = mark_booking_created_ok [OF d tc]
  note E = notify_ok [OF e]
  show "committed w1 = committed w" using A B C D E by simp
  show "bk_call_id b = callId data \<and> bk_workshop_id b = workshopId data \<and>
         bk_status b = ''confirmed'' \<and>
         bk_scheduled_at b = parseDateTime (clk sv) (str_val (preferredDate data)) (str_val (preferredTime data)) \<and>
         bk_issue_summary b = issueSummary data \<and> bk_issue_category b = issueCategory data \<and>
         bk_urgency b = urgency_of data"
    using C by auto
  have bc: "bk_customer_id b = cid" "bk_vehicle_id b = vid" using C by auto
  show "\<exists>d1. tx w1 = Some d1 \<and> bookings d1 = bookings d @ [b] \<and> calls d1 = calls d \<and>
           call_analysis d1 = map (\<lambda>a. if ca_call_id a = callId data then a\<lparr>ca_booking_created := True\<rparr> else a)
            (call_analysis d) \<and>
           (case filter (customer_matches (workshopId data) (customerPhone data)) (customers d) of
              [] \<Rightarrow> customers d1 = customers d @
                     [\<lparr>cust_id = bk_customer_id b, cust_workshop_id = workshopId data,
                       cust_name = customerName data, cust_phone = customerPhone data,
                       cust_email = customerEmail data\<rparr>]
            | c # cs \<Rightarrow> customers d1 = customers d \<and> bk_customer_id b = cust_id c) \<and>
           (if truthy_str (vehicleMake data) \<and> truthy_str (vehicleModel data)
            then \<exists>i. bk_vehicle_id b = Some i \<and> vehicles d1 = vehicles d @
                     [\<lparr>veh_id = i, veh_customer_id = bk_customer_id b, veh_make = vehicleMake data,
                       veh_model = vehicleModel data, veh_year = vehicleYear data\<rparr>]
            else bk_vehicle_id b = None \<and> vehicles d1 = vehicles d)"
    using A B D E tc ta tb bc
    by (auto split: list.splits if_splits)
qed

lemma tx_begin_Inr_iff:
  "(tx_begin sv w = (Inr u, w')) =
     (\<not> db_fails sv Begin (session_db w) \<and> w' = (emit (EvSql Begin) w)\<lparr>tx := Some (session_db w)\<rparr>)"
  by (auto simp: tx_begin_def Let_def)

lemma tx_commit_Inr_iff:
  "(tx_commit sv w = (Inr u, w')) =
     (\<not> db_fails sv Commit (session_db w) \<and>
      w' = (emit (EvSql Commit) w)\<lparr>committed := session_db w, tx := None\<rparr>)"
  by (auto simp: tx_commit_def Let_def)

lemma update_call_ok:
  assumes "update_call sv st dur cst rec tr cid w = (Inr u, w1)" and "tx w = Some d"
  shows "committed w1 = committed w \<and>
         tx w1 = Some (d\<lparr>calls :=
          map (\<lambda>c. if call_id c = cid
                    then c\<lparr>call_status := st, ended_at := Some (db_now sv),
                           duration_seconds := dur, cost_usd := cst,
                           recording_url := rec, call_transcript := tr\<rparr>
                    else c) (calls d)\<rparr>)"
  using assms by (auto simp: update_call_def query_Inr_iff store_tx emit_def)

lemma insert_call_analysis_ok:
  assumes "insert_call_analysis sv row w = (Inr u, w1)" and "tx w = Some d"
  shows "committed w1 = committed w \<and> tx w1 = Some (d\<lparr>call_analysis := call_analysis d @ [row]\<rparr>)"
  using assms by (auto simp: insert_call_analysis_def query_Inr_iff store_tx emit_def)

text \<open>What a run of the try block that reaches the end of COMMIT has committed.\<close>

lemma try_ok:
  assumes run: "processCallEnded_try sv data w = (Inr u, w')" and t: "tx w = None"
  shows "tx w' = None"
    and "calls (committed w') =
          map (\<lambda>c. if call_id c = callId data
                    then c\<lparr>call_status := ''completed'', ended_at := Some (db_now sv),
                           duration_seconds := duration data, cost_usd := cost data,
                           recording_url := recording data, call_transcript := transcript data\<rparr>
                    else c) (calls (committed w))"
    and "\<not> wants_booking data \<Longrightarrow>
           bookings (committed w') = bookings (committed w) \<and>
           customers (committed w') = customers (committed w) \<and>
           vehicles (committed w') = vehicles (committed w) \<and>
           call_analysis (committed w') = call_analysis (committed w) @ [analysis_params data]"
    and "wants_booking data \<Longrightarrow>
           \<exists>b. bookings (committed w') = bookings (committed w) @ [b] \<and>
             bk_call_id b = callId data \<and> bk_workshop_id b = workshopId data \<and>
             bk_status b = ''confirmed'' \<and>
             bk_scheduled_at b = parseDateTime (clk sv) (str_val (preferred_date (structuredData data)))
                 (str_val (preferred_time (structuredData data))) \<and>
             call_analysis (committed w') =
               map (\<lambda>a. if ca_call_id a = callId data then a\<lparr>ca_booking_created := True\<rparr> else a)
                 (call_analysis (committed w) @ [analysis_params data]) \<and>
             (case filter (customer_matches (workshopId data) (customer_phone (structuredData data)))
                     (customers (committed w)) of
                [] \<Rightarrow> customers (committed w') = customers (committed w) @
                     [\<lparr>cust_id = bk_customer_id b, cust_workshop_id = workshopId data,
                       cust_name = customer_name (structuredData data),
                       cust_phone = customer_phone (structuredData data),
                       cust_email = customer_email (structuredData data)\<rparr>]
              | c # cs \<Rightarrow> customers (committed w') = customers (committed w) \<and>
                          bk_customer_id b = cust_id c) \<and>
             (if truthy_str (vehicle_make (structuredData data)) \<and>
                 truthy_str (vehicle_model (structuredData data))
              then \<exists>i. bk_vehicle_id b = Some i \<and> vehicles (committed w') = vehicles (committed w) @
                     [\<lparr>veh_id = i, veh_customer_id = bk_customer_id b,
                       veh_make = vehicle_make (structuredData data),
                       veh_model = vehicle_model (structuredData data),
                       veh_year = vehicle_year (structuredData data)\<rparr>]
              else bk_vehicle_id b = None \<and> vehicles (committed w') = vehicles (committed w))"
proof -
  let ?c = "committed w"
  from run obtain w1 w2 w3 w4 where
    s1: "tx_begin sv w = (Inr (), w1)" and
    s2: "update_call sv ''completed'' (duration data) (cost data) (recording data)
                (transcript data) (callId data) w1 = (Inr (), w2)" and
    s3: "insert_call_analysis sv (analysis_params data) w2 = (Inr (), w3)" and
    s4: "(if wants_booking data
              then andThen (createBooking sv (bookingData data)) (\<lambda>_. ret ())
              else ret ()) w3 = (Inr (), w4)" and
    s5: "tx_commit sv w4 = (Inr (), w')"
    by (auto simp: processCallEnded_try_def andThen_Inr_iff)
  from s1 t have t1: "tx w1 = Some ?c" and c1: "committed w1 = ?c"
    by (auto simp: tx_begin_Inr_iff session_db_def)
  note U = update_call_ok [OF s2 t1]
  let ?d2 = "?c\<lparr>calls :=
          map (\<lambda>c. if call_id c = callId data
                    then c\<lparr>call_status := ''completed'', ended_at := Some (db_now sv),
                           duration_seconds := duration data, cost_usd := cost data,
                           recording_url := recording data, call_transcript := transcript data\<rparr>
                    else c) (calls ?c)\<rparr>"
  from U have t2: "tx w2 = Some ?d2" by simp
  note I = insert_call_analysis_ok [OF s3 t2]
  let ?d3 = "?d2\<lparr>call_analysis := call_analysis ?d2 @ [analysis_params data]\<rparr>"
  from I have t3: "tx w3 = Some ?d3" by simp
  from s5 have fin: "committed w' = session_db w4" "tx w' = None"
    by (auto simp: tx_commit_Inr_iff)
  show "tx w' = None" by (rule fin)
  have nb: "\<not> wants_booking data \<Longrightarrow> session_db w4 = ?d3"
    using s4 t3 by (simp add: ret_Inr_iff)
  have wb: "wants_booking data \<Longrightarrow> \<exists>b. createBooking sv (bookingData data) w3 = (Inr b, w4)"
    using s4 by (auto simp: andThen_Inr_iff ret_Inr_iff)
  show "calls (committed w') =
          map (\<lambda>c. if call_id c = callId data
                    then c\<lparr>call_status := ''completed'', ended_at := Some (db_now sv),
                           duration_seconds := duration data, cost_usd := cost data,
                           recording_url := recording data, call_transcript := transcript data\<rparr>
                    else c) (calls (committed w))"
  proof (cases "wants_booking data")
    case False
    with nb fin show ?thesis by simp
  next
    case True
    with wb obtain b where cb: "createBooking sv (bookingData data) w3 = (Inr b, w4)" by blast
    from createBooking_ok(2) [OF cb t3] fin show ?thesis by auto
  qed
  show "\<not> wants_booking data \<Longrightarrow>
           bookings (committed w') = bookings (committed w) \<and>
           customers (committed w') = customers (committed w) \<and>
           vehicles (committed w') = vehicles (committed w) \<and>
           call_analysis (committed w') = call_analysis (committed w) @ [analysis_params data]"
    using nb fin by simp
  show "\<exists>b. bookings (committed w') = bookings (committed w) @ [b] \<and>
             bk_call_id b = callId data \<and> bk_workshop_id b = workshopId data \<and>
             bk_status b = ''confirmed'' \<and>
             bk_scheduled_at b = parseDateTime (clk sv) (str_val (preferred_date (structuredData data)))
                 (str_val (preferred_time (structuredData data))) \<and>
             call_analysis (committed w') =
               map (\<lambda>a. if ca_call_id a = callId data then a\<lparr>ca_booking_created := True\<rparr> else a)
                 (call_analysis (committed w) @ [analysis_params data]) \<and>
             (case filter (customer_matches (workshopId data) (customer_phone (structuredData data)))
                     (customers (committed w)) of
                [] \<Rightarrow> customers (committed w') = customers (committed w) @
                     [\<lparr>cust_id = bk_customer_id b, cust_workshop_id = workshopId data,
                       cust_name = customer_name (structuredData data),
                       cust_phone = customer_phone (structuredData data),
                       cust_email = customer_email (structuredData data)\<rparr>]
              | c # cs \<Rightarrow> customers (committed w') = customers (committed w) \<and>
                          bk_customer_id b = cust_id c) \<and>
             (if truthy_str (vehicle_make (structuredData data)) \<and>
                 truthy_str (vehicle_model (structuredData data))
              then \<exists>i. bk_vehicle_id b = Some i \<and> vehicles (committed w') = vehicles (committed w) @
                     [\<lparr>veh_id = i, veh_customer_id = bk_customer_id b,
                       veh_make = vehicle_make (structuredData data),
                       veh_model = vehicle_model (structuredData data),
                       veh_year = vehicle_year (structuredData data)\<rparr>]
              else bk_vehicle_id b = None \<and> vehicles (committed w') = vehicles (committed w))"
    if wants: "wants_booking data"
  proof -
    from wb wants obtain b where cb: "createBooking sv (bookingData data) w3 = (Inr b, w4)" by blast
    from createBooking_ok(2) [OF cb t3] obtain d4 where
      d4: "tx w4 = Some d4" and
      rest: "bookings d4 = bookings ?d3 @ [b] \<and> calls d4 = calls ?d3 \<and>
           call_analysis d4 = map (\<lambda>a. if ca_call_id a = callId (bookingData data) then a\<lparr>ca_booking_created := True\<rparr> else a)
            (call_analysis ?d3) \<and>
           (case filter (customer_matches (workshopId (bookingData data)) (customerPhone (bookingData data))) (customers ?d3) of
              [] \<Rightarrow> customers d4 = customers ?d3 @
                     [\<lparr>cust_id = bk_customer_id b, cust_workshop_id = workshopId (bookingData data),
                       cust_name = customerName (bookingData data), cust_phone = customerPhone (bookingData data),
                       cust_email = customerEmail (bookingData data)\<rparr>]
            | c # cs \<Rightarrow> customers d4 = customers ?d3 \<and> bk_customer_id b = cust_id c) \<and>
           (if truthy_str (vehicleMake (bookingData data)) \<and> truthy_str (vehicleModel (bookingData data))
            then \<exists>i. bk_vehicle_id b = Some i \<and> vehicles d4 = vehicles ?d3 @
                     [\<lparr>veh_id = i, veh_customer_id = bk_customer_id b, veh_make = vehicleMake (bookingData data),
                       veh_model = vehicleModel (bookingData data), veh_year = vehicleYear (bookingData data)\<rparr>]
            else bk_vehicle_id b = None \<and> vehicles d4 = vehicles ?d3)"
      by blast
    from fin d4 have cw: "committed w' = d4" by simp
    have bd: "callId (bookingData data) = callId data" "workshopId (bookingData data) = workshopId data"
      "customerPhone (bookingData data) = customer_phone (structuredData data)"
      "customerName (bookingData data) = customer_name (structuredData data)"
      "customerEmail (bookingData data) = customer_email (structuredData data)"
      "vehicleMake (bookingData data) = vehicle_make (structuredData data)"
      "vehicleModel (bookingData data) = vehicle_model (structuredData data)"
      "vehicleYear (bookingData data) = vehicle_year (structuredData data)"
      "preferredDate (bookingData data) = preferred_date (structuredData data)"
      "preferredTime (bookingData data) = preferred_time (structuredData data)"
      by (simp_all add: bookingData_def Let_def)
    from rest createBooking_ok(3) [OF cb t3] show ?thesis
      unfolding cw bd by (intro exI [of _ b]) (auto split: list.splits if_splits)
  qed
qed

subsection \<open>The order of the effects\<close>

lemma andThen_cases:
  assumes "andThen m f w = (r, w')"
  obtains (fail) e where "m w = (Inl e, w')" "r = Inl e"
        | (ok) x w1 where "m w = (Inr x, w1)" "f x w1 = (r, w')"
  using assms by (auto simp: andThen_def split: prod.splits sum.splits)

lemma quietD:
  "quiet m \<Longrightarrow> m w = (r, w1) \<Longrightarrow> \<exists>evs. trace w1 = trace w @ evs \<and> list_all data_event evs"
  by (auto simp: quiet_def dest!: spec [of _ w])

lemma quiet_ret: "quiet (ret x)"
  by (simp add: quiet_def ret_def)

lemma quiet_andThen:
  assumes "quiet m" and "\<And>x. quiet (f x)"
  shows "quiet (andThen m f)"
  unfolding quiet_def
proof
  fix w :: world
  obtain r w1 where m: "m w = (r, w1)" by (cases "m w")
  from quietD [OF assms(1) m] obtain evs1 where e1: "trace w1 = trace w @ evs1" "list_all data_event evs1"
    by blast
  show "\<exists>evs. trace (snd (andThen m f w)) = trace w @ evs \<and> list_all data_event evs"
  proof (cases r)
    case (Inl e)
    with m e1 show ?thesis by (auto simp: andThen_def)
  next
    case (Inr x)
    obtain r2 w2 where f: "f x w1 = (r2, w2)" by (cases "f x w1")
    from quietD [OF assms(2) f] obtain evs2 where e2: "trace w2 = trace w1 @ evs2" "list_all data_event evs2"
      by blast
    from Inr m f e1 e2 have "trace (snd (andThen m f w)) = trace w @ (evs1 @ evs2) \<and> list_all data_event (evs1 @ evs2)"
      by (simp add: andThen_def)
    then show ?thesis by blast
  qed
qed

lemma trace_query: "query sv q act w = (r, w1) \<Longrightarrow> trace w1 = trace w @ [EvSql q]"
  by (auto simp: query_def store_def emit_def Let_def split: if_splits prod.splits option.splits)

lemma trace_insert_returning: "insert_returning sv q act w = (r, w1) \<Longrightarrow> trace w1 = trace w @ [EvSql q]"
  by (auto simp: insert_returning_def store_def emit_def Let_def split: if_splits prod.splits option.splits)

lemma quiet_query: "data_event (EvSql q) \<Longrightarrow> quiet (query sv q act)"
  unfolding quiet_def
proof
  fix w :: world
  assume d: "data_event (EvSql q)"
  have "trace (snd (query sv q act w)) = trace w @ [EvSql q]"
    by (rule trace_query [of sv q act w "fst (query sv q act w)"]) simp
  with d show "\<exists>evs. trace (snd (query sv q act w)) = trace w @ evs \<and> list_all data_event evs"
    by (intro exI [of _ "[EvSql q]"]) simp
qed

lemma quiet_insert_returning: "data_event (EvSql q) \<Longrightarrow> quiet (insert_returning sv q act)"
  unfolding quiet_def
proof
  fix w :: world
  assume d: "data_event (EvSql q)"
  have "trace (snd (insert_returning sv q act w)) = trace w @ [EvSql q]"
    by (rule trace_insert_returning [of sv q act w "fst (insert_returning sv q act w)"]) simp
  with d show "\<exists>evs. trace (snd (insert_returning sv q act w)) = trace w @ evs \<and> list_all data_event evs"
    by (intro exI [of _ "[EvSql q]"]) simp
qed

lemma quiet_find_or_create_customer: "quiet (find_or_create_customer sv data)"
  unfolding find_or_create_customer_def select_customer_def insert_customer_def
  by (intro quiet_andThen quiet_query) (simp_all add: quiet_ret quiet_insert_returning split: list.splits)

lemma quiet_create_vehicle: "quiet (create_vehicle sv data cid)"
  unfolding create_vehicle_def insert_vehicle_def
  by (simp add: quiet_andThen quiet_ret quiet_insert_returning)

lemma insert_booking_result:
  "insert_booking sv wid cid vid callid sched summ cat urg st w = (Inr b, w1) \<Longrightarrow>
     b = \<lparr>bk_id = id_seq w, bk_workshop_id = wid, bk_customer_id = cid,
                         bk_vehicle_id = vid, bk_call_id = callid, bk_scheduled_at = sched,
                         bk_issue_summary = summ, bk_issue_category = cat, bk_urgency = urg,
                         bk_status = st\<rparr>"
  by (auto simp: insert_booking_def insert_returning_Inr_iff Let_def)

text \<open>The events of createBooking: data statements only, then, if all of them were accepted,
  the notification request and the warning if it failed.\<close>

lemma createBooking_trace:
  assumes run: "createBooking sv data w = (r, w1)"
  shows "\<exists>pre. list_all data_event pre \<and>
           ((\<exists>e. r = Inl e \<and> trace w1 = trace w @ pre) \<or>
            (\<exists>b. r = Inr b \<and> EvSql (booking_stmt data b) \<in> set pre \<and>
                 EvSql (MarkBookingCreated (callId data)) \<in> set pre \<and>
                 trace w1 = trace w @ pre @ EvPost (booking_payload data b) #
                   (if post_fails sv (booking_payload data b) then [EvWarn] else [])))"
proof -
  let ?sched = "parseDateTime (clk sv) (str_val (preferredDate data)) (str_val (preferredTime data))"
  from run have run': "andThen (find_or_create_customer sv data) (\<lambda>customerId.
     andThen (create_vehicle sv data customerId) (\<lambda>vehicleId.
     andThen (insert_booking sv (workshopId data) customerId vehicleId (callId data)
                ?sched (issueSummary data) (issueCategory data) (urgency_of data)
                ''confirmed'') (\<lambda>booking.
     andThen (mark_booking_created sv (callId data)) (\<lambda>_.
     andThen (notify_booking_service sv
                \<lparr>np_bookingId = bk_id booking, np_workshopId = workshopId data,
                 np_customerId = customerId, np_customerEmail = customerEmail data,
                 np_scheduledAt = ?sched\<rparr>) (\<lambda>_.
     ret booking))))) w = (r, w1)"
    by (simp add: createBooking_def Let_def)
  show ?thesis
    using run'
  proof (cases rule: andThen_cases)
    case (fail e)
    from quietD [OF quiet_find_or_create_customer fail(1)] fail(2) show ?thesis by blast
  next
    case (ok cid wa)
    from quietD [OF quiet_find_or_create_customer ok(1)] obtain ea where
      ea: "trace wa = trace w @ ea" "list_all data_event ea" by blast
    from ok(2) show ?thesis
    proof (cases rule: andThen_cases)
      case (fail e)
      from quietD [OF quiet_create_vehicle fail(1)] obtain eb where
        "trace w1 = trace wa @ eb" "list_all data_event eb" by blast
      with ea have "list_all data_event (ea @ eb) \<and> trace w1 = trace w @ (ea @ eb)" by simp
      with fail(2) show ?thesis by blast
    next
      case (ok vid wb)
      from quietD [OF quiet_create_vehicle ok(1)] obtain eb where
        eb: "trace wb = trace wa @ eb" "list_all data_event eb" by blast
      let ?q = "InsertBooking (workshopId data) cid vid (callId data) ?sched (issueSummary data)
                  (issueCategory data) (urgency_of data) ''confirmed''"
      from ok(2) show ?thesis
      proof (cases rule: andThen_cases)
        case (fail e)
        from fail(1) have "trace w1 = trace wb @ [EvSql ?q]"
          by (simp add: insert_booking_def trace_insert_returning)
        with ea eb have "list_all data_event (ea @ eb @ [EvSql ?q]) \<and> trace w1 = trace w @ (ea @ eb @ [EvSql ?q])"
          by simp
        with fail(2) show ?thesis by blast
      next
        case (ok b wc)
        from ok(1) have tc: "trace wc = trace wb @ [EvSql ?q]"
          by (simp add: insert_booking_def trace_insert_returning)
        from insert_booking_result [OF ok(1)] have q: "?q = booking_stmt data b"
          and p: "\<lparr>np_bookingId = bk_id b, np_workshopId = workshopId data,
                 np_customerId = cid, np_customerEmail = customerEmail data,
                 np_scheduledAt = ?sched\<rparr> = booking_payload data b"
          by (simp_all add: booking_stmt_def booking_payload_def)
        let ?m = "MarkBookingCreated (callId data)"
        let ?pre = "ea @ eb @ [EvSql (booking_stmt data b), EvSql ?m]"
        from ok(2) show ?thesis
        proof (cases rule: andThen_cases)
          case (fail e)
          from fail(1) have "trace w1 = trace wc @ [EvSql ?m]"
            by (simp add: mark_booking_created_def trace_query)
          with ea eb tc q have "list_all data_event ?pre \<and> trace w1 = trace w @ ?pre"
            by (simp add: booking_stmt_def)
          with fail(2) show ?thesis by blast
        next
          case (ok u wd)
          from ok(1) have td: "trace wd = trace wc @ [EvSql ?m]"
            by (simp add: mark_booking_created_def trace_query)
          from ok(2) have "r = Inr b" and
            "trace w1 = trace wd @ EvPost (booking_payload data b) #
                   (if post_fails sv (booking_payload data b) then [EvWarn] else [])"
            unfolding p by (auto simp: andThen_def notify_eq ret_def)
          with ea eb tc td q have "list_all data_event ?pre \<and> r = Inr b \<and>
              EvSql (booking_stmt data b) \<in> set ?pre \<and> EvSql ?m \<in> set ?pre \<and>
              trace w1 = trace w @ ?pre @ EvPost (booking_payload data b) #
                   (if post_fails sv (booking_payload data b) then [EvWarn] else [])"
            by (simp add: booking_stmt_def)
          then show ?thesis by blast
        qed
      qed
    qed
  qed
qed

lemma trace_tx_begin: "tx_begin sv w = (r, w1) \<Longrightarrow> trace w1 = trace w @ [EvSql Begin]"
  by (auto simp: tx_begin_def emit_def Let_def split: if_splits)

lemma trace_tx_commit: "tx_commit sv w = (r, w1) \<Longrightarrow> trace w1 = trace w @ [EvSql Commit]"
  by (auto simp: tx_commit_def emit_def Let_def split: if_splits)

lemma trace_tx_rollback: "tx_rollback sv w = (r, w1) \<Longrightarrow> trace w1 = trace w @ [EvSql Rollback]"
  by (auto simp: tx_rollback_def emit_def Let_def split: if_splits)

lemma data_event_no_post: "list_all data_event evs \<Longrightarrow> list_all (\<lambda>e. \<not> is_post e) evs"
  by (induction evs) (auto elim: data_event.elims)

lemma data_event_no_commit: "list_all data_event evs \<Longrightarrow> EvSql Commit \<notin> set evs"
  by (induction evs) auto

text \<open>The events of the try block: either no notification request at all, or the full
  sequence up to the COMMIT.\<close>

lemma try_trace:
  assumes run: "processCallEnded_try sv data w = (r, w1)"
  shows "\<exists>evs. trace w1 = trace w @ evs \<and>
          (list_all (\<lambda>e. \<not> is_post e) evs \<and> ((\<exists>e. r = Inl e) \<or> \<not> wants_booking data) \<or>
           (\<exists>b pre. list_all data_event pre \<and>
              EvSql (booking_stmt (bookingData data) b) \<in> set pre \<and>
              EvSql (MarkBookingCreated (callId data)) \<in> set pre \<and>
              evs = [EvSql Begin,
                     EvSql (UpdateCall ''completed'' (duration data) (cost data) (recording data)
                              (transcript data) (callId data)),
                     EvSql (InsertCallAnalysis (analysis_params data))] @ pre @
                    EvPost (booking_payload (bookingData data) b) #
                    (if post_fails sv (booking_payload (bookingData data) b) then [EvWarn] else []) @
                    [EvSql Commit]))"
proof -
  let ?u = "UpdateCall ''completed'' (duration data) (cost data) (recording data)
                              (transcript data) (callId data)"
  let ?i = "InsertCallAnalysis (analysis_params data)"
  from run have run': "andThen (tx_begin sv) (\<lambda>_.
     andThen (update_call sv ''completed'' (duration data) (cost data) (recording data)
                (transcript data) (callId data)) (\<lambda>_.
     andThen (insert_call_analysis sv (analysis_params data)) (\<lambda>_.
     andThen (if wants_booking data
              then andThen (createBooking sv (bookingData data)) (\<lambda>_. ret ())
              else ret ()) (\<lambda>_.
     tx_commit sv)))) w = (r, w1)"
    by (simp add: processCallEnded_try_def)
  show ?thesis
    using run'
  proof (cases rule: andThen_cases)
    case (fail e)
    from trace_tx_begin [OF fail(1)] fail(2) show ?thesis
      by (intro exI [of _ "[EvSql Begin]"]) simp
  next
    case (ok u wa)
    note ta = trace_tx_begin [OF ok(1)]
    from ok(2) show ?thesis
    proof (cases rule: andThen_cases)
      case (fail e)
      from fail(1) ta have "trace w1 = trace w @ [EvSql Begin, EvSql ?u]"
        by (simp add: update_call_def trace_query)
      with fail(2) show ?thesis
        by (intro exI [of _ "[EvSql Begin, EvSql ?u]"]) simp
    next
      case (ok u2 wb)
      from ok(1) ta have tb: "trace wb = trace w @ [EvSql Begin, EvSql ?u]"
        by (simp add: update_call_def trace_query)
      from ok(2) show ?thesis
      proof (cases rule: andThen_cases)
        case (fail e)
        from fail(1) tb have "trace w1 = trace w @ [EvSql Begin, EvSql ?u, EvSql ?i]"
          by (simp add: insert_call_analysis_def trace_query)
        with fail(2) show ?thesis
          by (intro exI [of _ "[EvSql Begin, EvSql ?u, EvSql ?i]"]) simp
      next
        case (ok u3 wc)
        from ok(1) tb have tc: "trace wc = trace w @ [EvSql Begin, EvSql ?u, EvSql ?i]"
          by (simp add: insert_call_analysis_def trace_query)
        show ?thesis
        proof (cases "wants_booking data")
          case False
          with ok(2) have "tx_commit sv wc = (r, w1)"
            by (simp add: andThen_def ret_def)
          from trace_tx_commit [OF this] tc
          have "trace w1 = trace w @ [EvSql Begin, EvSql ?u, EvSql ?i, EvSql Commit]" by simp
          with False show ?thesis
            by (intro exI [of _ "[EvSql Begin, EvSql ?u, EvSql ?i, EvSql Commit]"]) simp
        next
          case True
          obtain rb wd where cb: "createBooking sv (bookingData data) wc = (rb, wd)"
            by (cases "createBooking sv (bookingData data) wc")
          from createBooking_trace [OF cb] obtain pre where
            pre: "list_all data_event pre" and
            alt: "(\<exists>e. rb = Inl e \<and> trace wd = trace wc @ pre) \<or>
            (\<exists>b. rb = Inr b \<and> EvSql (booking_stmt (bookingData data) b) \<in> set pre \<and>
                 EvSql (MarkBookingCreated (callId (bookingData data))) \<in> set pre \<and>
                 trace wd = trace wc @ pre @ EvPost (booking_payload (bookingData data) b) #
                   (if post_fails sv (booking_payload (bookingData data) b) then [EvWarn] else []))"
            by blast
          have cid: "callId (bookingData data) = callId data"
            by (simp add: bookingData_def Let_def)
          from alt show ?thesis
          proof
            assume "\<exists>e. rb = Inl e \<and> trace wd = trace wc @ pre"
            then obtain e where e: "rb = Inl e" "trace wd = trace wc @ pre" by blast
            with ok(2) True cb have "w1 = wd" and re: "\<exists>e. r = Inl e" by (auto simp: andThen_def)
            with e tc have "trace w1 = trace w @ ([EvSql Begin, EvSql ?u, EvSql ?i] @ pre)" by simp
            moreover have "list_all (\<lambda>e. \<not> is_post e) ([EvSql Begin, EvSql ?u, EvSql ?i] @ pre)"
              using data_event_no_post [OF pre] by simp
            ultimately show ?thesis using re by blast
          next
            assume "\<exists>b. rb = Inr b \<and> EvSql (booking_stmt (bookingData data) b) \<in> set pre \<and>
                 EvSql (MarkBookingCreated (callId (bookingData data))) \<in> set pre \<and>
                 trace wd = trace wc @ pre @ EvPost (booking_payload (bookingData data) b) #
                   (if post_fails sv (booking_payload (bookingData data) b) then [EvWarn] else [])"
            then obtain b where b: "rb = Inr b" "EvSql (booking_stmt (bookingData data) b) \<in> set pre"
                 "EvSql (MarkBookingCreated (callId data)) \<in> set pre"
                 "trace wd = trace wc @ pre @ EvPost (booking_payload (bookingData data) b) #
                   (if post_fails sv (booking_payload (bookingData data) b) then [EvWarn] else [])"
              unfolding cid by blast
            from ok(2) True cb b(1) have "tx_commit sv wd = (r, w1)"
              by (simp add: andThen_def ret_def)
            from trace_tx_commit [OF this] b(4) tc
            have "trace w1 = trace w @ ([EvSql Begin, EvSql ?u, EvSql ?i] @ pre @
                    EvPost (booking_payload (bookingData data) b) #
                    (if post_fails sv (booking_payload (bookingData data) b) then [EvWarn] else []) @
                    [EvSql Commit])"
              by simp
            with pre b(2,3) show ?thesis by blast
          qed
        qed
      qed
    qed
  qed
qed

lemma processCallEnded_trace:
  assumes run: "processCallEnded sv data w = (r, w')"
  shows "\<exists>evs tl. trace w' = trace w @ evs @ tl \<and> list_all (\<lambda>e. \<not> is_post e) tl \<and>
          (list_all (\<lambda>e. \<not> is_post e) evs \<and> ((\<exists>e. r = Inl e) \<or> \<not> wants_booking data) \<or>
           (\<exists>b pre. list_all data_event pre \<and>
              EvSql (booking_stmt (bookingData data) b) \<in> set pre \<and>
              EvSql (MarkBookingCreated (callId data)) \<in> set pre \<and>
              evs = [EvSql Begin,
                     EvSql (UpdateCall ''completed'' (duration data) (cost data) (recording data)
                              (transcript data) (callId data)),
                     EvSql (InsertCallAnalysis (analysis_params data))] @ pre @
                    EvPost (booking_payload (bookingData data) b) #
                    (if post_fails sv (booking_payload (bookingData data) b) then [EvWarn] else []) @
                    [EvSql Commit]))"
proof (cases "connect_fails sv")
  case True
  with run have "trace w' = trace w @ [] @ []" and "r = Inl ConnectError"
    by (simp_all add: processCallEnded_def)
  then show ?thesis by (intro exI [of _ "[]"]) simp
next
  case False
  obtain r1 w1 where t: "processCallEnded_try sv data w = (r1, w1)"
    by (cases "processCallEnded_try sv data w")
  from try_trace [OF t] obtain evs where evs: "trace w1 = trace w @ evs" and
    alt: "list_all (\<lambda>e. \<not> is_post e) evs \<and> ((\<exists>e. r1 = Inl e) \<or> \<not> wants_booking data) \<or>
           (\<exists>b pre. list_all data_event pre \<and>
              EvSql (booking_stmt (bookingData data) b) \<in> set pre \<and>
              EvSql (MarkBookingCreated (callId data)) \<in> set pre \<and>
              evs = [EvSql Begin,
                     EvSql (UpdateCall ''completed'' (duration data) (cost data) (recording data)
                              (transcript data) (callId data)),
                     EvSql (InsertCallAnalysis (analysis_params data))] @ pre @
                    EvPost (booking_payload (bookingData data) b) #
                    (if post_fails sv (booking_payload (bookingData data) b) then [EvWarn] else []) @
                    [EvSql Commit])"
    by blast
  have rr: "(\<exists>e. r1 = Inl e) \<longrightarrow> (\<exists>e. r = Inl e)"
    using run False t by (auto simp: processCallEnded_def split: prod.splits sum.splits)
  have "\<exists>tl. trace w' = trace w1 @ tl \<and> list_all (\<lambda>e. \<not> is_post e) tl"
  proof (cases r1)
    case (Inr u)
    with run False t have "trace w' = trace w1 @ [EvRelease]"
      by (auto simp: processCallEnded_def)
    then show ?thesis by (intro exI [of _ "[EvRelease]"]) simp
  next
    case (Inl e)
    obtain r2 w2 where rb: "tx_rollback sv w1 = (r2, w2)" by (cases "tx_rollback sv w1")
    from run False t Inl rb have "trace w' = trace w2 @ [EvRelease]"
      by (auto simp: processCallEnded_def split: sum.splits)
    with trace_tx_rollback [OF rb] have "trace w' = trace w1 @ [EvSql Rollback, EvRelease]" by simp
    then show ?thesis by (intro exI [of _ "[EvSql Rollback, EvRelease]"]) simp
  qed
  then obtain tl where "trace w' = trace w1 @ tl" "list_all (\<lambda>e. \<not> is_post e) tl" by blast
  with evs alt rr show ?thesis by (intro exI [of _ evs] exI [of _ tl]) auto
qed

lemma before_post_split:
  "list_all (\<lambda>e. \<not> is_post e) xs \<Longrightarrow> before_post (xs @ EvPost p # ys) = xs"
  by (induction xs) (simp_all add: before_post_def)

lemma from_post_split:
  "list_all (\<lambda>e. \<not> is_post e) xs \<Longrightarrow> from_post (xs @ EvPost p # ys) = EvPost p # ys"
  by (induction xs) (simp_all add: from_post_def)

lemma from_post_none: "list_all (\<lambda>e. \<not> is_post e) xs \<Longrightarrow> from_post xs = []"
  by (induction xs) (simp_all add: from_post_def)

lemma new_events_append: "trace w' = trace w @ evs \<Longrightarrow> new_events w w' = evs"
  by (simp add: new_events_def)


subsection \<open>The outcome of the notification request does not show in results or data\<close>

lemma post_blindD:
  "post_blind m m' \<Longrightarrow> same_data w w' \<Longrightarrow> m w = (r, w1) \<Longrightarrow> m' w' = (r', w1') \<Longrightarrow>
   r = r' \<and> same_data w1 w1'"
proof -
  assume p: "post_blind m m'" and s: "same_data w w'" and m: "m w = (r, w1)" "m' w' = (r', w1')"
  from p s have "fst (m w) = fst (m' w') \<and> same_data (snd (m w)) (snd (m' w'))"
    unfolding post_blind_def by blast
  with m show ?thesis by simp
qed

lemma same_data_session: "same_data w w' \<Longrightarrow> session_db w = session_db w'"
  by (auto simp: same_data_def session_db_def split: option.splits)

lemma same_data_emit: "same_data w w' \<Longrightarrow> same_data (emit e w) (emit e' w')"
  by (simp add: same_data_def emit_def)

lemma same_data_store: "same_data w w' \<Longrightarrow> same_data (store d w) (store d w')"
  by (auto simp: same_data_def store_def split: option.splits)

lemma post_blind_ret: "post_blind (ret x) (ret x)"
  by (simp add: post_blind_def ret_def)

lemma post_blind_andThen:
  assumes "post_blind m m'" and "\<And>x. post_blind (f x) (f' x)"
  shows "post_blind (andThen m f) (andThen m' f')"
  unfolding post_blind_def
proof (intro allI impI)
  fix w w' :: world
  assume s: "same_data w w'"
  obtain r w1 where m: "m w = (r, w1)" by (cases "m w")
  obtain r' w1' where m': "m' w' = (r', w1')" by (cases "m' w'")
  from post_blindD [OF assms(1) s m m'] have eq: "r = r'" "same_data w1 w1'" by simp_all
  show "fst (andThen m f w) = fst (andThen m' f' w') \<and>
        same_data (snd (andThen m f w)) (snd (andThen m' f' w'))"
  proof (cases r)
    case (Inl e)
    with m m' eq show ?thesis by (auto simp: andThen_def)
  next
    case (Inr x)
    from assms(2) [of x] eq(2) have "fst (f x w1) = fst (f' x w1') \<and> same_data (snd (f x w1)) (snd (f' x w1'))"
      by (simp add: post_blind_def)
    with Inr m m' eq show ?thesis by (auto simp: andThen_def)
  qed
qed

lemma post_blind_query:
  "db_fails sv' = db_fails sv \<Longrightarrow> post_blind (query sv q act) (query sv' q act)"
  unfolding post_blind_def
proof (intro allI impI)
  fix w w' :: world
  assume a: "db_fails sv' = db_fails sv" and s: "same_data w w'"
  note e = same_data_session [OF s]
  from a e same_data_store [OF same_data_emit [OF s]]
  show "fst (query sv q act w) = fst (query sv' q act w') \<and>
        same_data (snd (query sv q act w)) (snd (query sv' q act w'))"
    by (simp add: query_def Let_def same_data_emit [OF s] split: prod.splits)
qed

lemma post_blind_insert_returning:
  "db_fails sv' = db_fails sv \<Longrightarrow> post_blind (insert_returning sv q act) (insert_returning sv' q act)"
  unfolding post_blind_def
proof (intro allI impI)
  fix w w' :: world
  assume a: "db_fails sv' = db_fails sv" and s: "same_data w w'"
  note e = same_data_session [OF s]
  from s have i: "id_seq w = id_seq w'" by (simp add: same_data_def)
  have "same_data ((emit (EvSql q) w)\<lparr>id_seq := Suc (id_seq w')\<rparr>)
          ((emit (EvSql q) w')\<lparr>id_seq := Suc (id_seq w')\<rparr>)"
    using s by (simp add: same_data_def emit_def)
  from a e i same_data_store [OF this]
  show "fst (insert_returning sv q act w) = fst (insert_returning sv' q act w') \<and>
        same_data (snd (insert_returning sv q act w)) (snd (insert_returning sv' q act w'))"
    by (simp add: insert_returning_def Let_def same_data_emit [OF s] split: prod.splits)
qed

lemma post_blind_notify: "post_blind (notify_booking_service sv p) (notify_booking_service sv' p)"
  by (simp add: post_blind_def same_data_def notify_eq)

lemma post_blind_tx_begin: "db_fails sv' = db_fails sv \<Longrightarrow> post_blind (tx_begin sv) (tx_begin sv')"
  unfolding post_blind_def
proof (intro allI impI)
  fix w w' :: world
  assume a: "db_fails sv' = db_fails sv" and s: "same_data w w'"
  note e = same_data_session [OF s]
  from a e s
  show "fst (tx_begin sv w) = fst (tx_begin sv' w') \<and> same_data (snd (tx_begin sv w)) (snd (tx_begin sv' w'))"
    by (simp add: tx_begin_def Let_def same_data_def emit_def)
qed

lemma post_blind_tx_commit: "db_fails sv' = db_fails sv \<Longrightarrow> post_blind (tx_commit sv) (tx_commit sv')"
  unfolding post_blind_def
proof (intro allI impI)
  fix w w' :: world
  assume a: "db_fails sv' = db_fails sv" and s: "same_data w w'"
  note e = same_data_session [OF s]
  from a e s
  show "fst (tx_commit sv w) = fst (tx_commit sv' w') \<and> same_data (snd (tx_commit sv w)) (snd (tx_commit sv' w'))"
    by (simp add: tx_commit_def Let_def same_data_def emit_def)
qed

lemma post_blind_tx_rollback: "db_fails sv' = db_fails sv \<Longrightarrow> post_blind (tx_rollback sv) (tx_rollback sv')"
  unfolding post_blind_def
proof (intro allI impI)
  fix w w' :: world
  assume a: "db_fails sv' = db_fails sv" and s: "same_data w w'"
  note e = same_data_session [OF s]
  from a e s
  show "fst (tx_rollback sv w) = fst (tx_rollback sv' w') \<and> same_data (snd (tx_rollback sv w)) (snd (tx_rollback sv' w'))"
    by (simp add: tx_rollback_def Let_def same_data_def emit_def)
qed

lemma post_blind_createBooking:
  assumes "db_fails sv' = db_fails sv" and "clk sv' = clk sv"
  shows "post_blind (createBooking sv data) (createBooking sv' data)"
  unfolding createBooking_def Let_def find_or_create_customer_def create_vehicle_def
    select_customer_def insert_customer_def insert_vehicle_def insert_booking_def
    mark_booking_created_def assms(2)
  by (intro post_blind_andThen post_blind_query post_blind_insert_returning post_blind_notify
        post_blind_ret assms(1))
     (auto split: list.splits intro!: post_blind_andThen post_blind_insert_returning post_blind_ret assms(1))

lemma post_blind_try:
  assumes "db_fails sv' = db_fails sv" and "clk sv' = clk sv" and "db_now sv' = db_now sv"
  shows "post_blind (processCallEnded_try sv data) (processCallEnded_try sv' data)"
  unfolding processCallEnded_try_def update_call_def insert_call_analysis_def assms(3)
  by (intro post_blind_andThen post_blind_tx_begin post_blind_query post_blind_tx_commit assms(1))
     (auto intro!: post_blind_andThen post_blind_createBooking post_blind_ret assms)

lemma processCallEnded_post_blind:
  assumes a: "db_fails sv' = db_fails sv" "clk sv' = clk sv" "db_now sv' = db_now sv"
    and c: "connect_fails sv' = connect_fails sv"
    and run: "processCallEnded sv data w = (r, w1)" and run': "processCallEnded sv' data w = (r', w1')"
  shows "r' = r \<and> committed w1' = committed w1 \<and> tx w1' = tx w1"
proof (cases "connect_fails sv")
  case True
  with c run run' show ?thesis by (simp add: processCallEnded_def)
next
  case False
  obtain t wt where t: "processCallEnded_try sv data w = (t, wt)"
    by (cases "processCallEnded_try sv data w")
  obtain t' wt' where t': "processCallEnded_try sv' data w = (t', wt')"
    by (cases "processCallEnded_try sv' data w")
  have s0: "same_data w w" by (simp add: same_data_def)
  from post_blindD [OF post_blind_try [OF a] s0 t t'] have eq: "t = t'" "same_data wt wt'"
    by simp_all
  show ?thesis
  proof (cases t)
    case (Inr u)
    with run run' t t' eq False c show ?thesis
      by (auto simp: processCallEnded_def same_data_def)
  next
    case (Inl e)
    obtain b wb where b: "tx_rollback sv wt = (b, wb)" by (cases "tx_rollback sv wt")
    obtain b' wb' where b': "tx_rollback sv' wt' = (b', wb')" by (cases "tx_rollback sv' wt'")
    from post_blindD [OF post_blind_tx_rollback [OF a(1)] eq(2) b b'] have "b = b'" "same_data wb wb'"
      by simp_all
    with Inl run run' t t' eq False c b b' show ?thesis
      by (auto simp: processCallEnded_def same_data_def split: sum.splits)
  qed
qed

subsection \<open>The sample runs\<close>

lemma sample_run_ok: "processCallEnded services_ok call_ended_1 world_0 = (Inr (), world_1)"
  by code_simp

lemma sample_run_second: "fst (processCallEnded services_ok call_ended_2 world_1) = Inr ()"
  by code_simp

section \<open>Atomic processing of the call-ended event (claim C1)\<close>

lemma processCallEnded_ok:
  assumes "processCallEnded sv data w = (Inr u, w')"
  shows "\<exists>w1. processCallEnded_try sv data w = (Inr (), w1) \<and> committed w' = committed w1 \<and>
              tx w' = tx w1"
  using assms
  by (auto simp: processCallEnded_def split: if_splits prod.splits sum.splits)

lemma wants_booking_iff:
  "wants_booking data =
     (booking_confirmed (structuredData data) = Some True \<and>
      (\<exists>n. customer_name (structuredData data) = Some n \<and> n \<noteq> []))"
  by (auto simp: wants_booking_def truthy_bool_def truthy_str_def split: option.splits)

text \<open>After a failure past \<open>getClient\<close>, the \<open>ROLLBACK\<close> has been issued and the client
  released.\<close>

lemma failure_rolls_back:
  assumes run: "processCallEnded sv data w = (Inl e, w')" and c: "\<not> connect_fails sv"
  shows "EvSql Rollback \<in> set (new_events w w') \<and> last (new_events w w') = EvRelease"
proof -
  obtain r1 w1 where t: "processCallEnded_try sv data w = (r1, w1)"
    by (cases "processCallEnded_try sv data w")
  from try_trace [OF t] obtain evs where evs: "trace w1 = trace w @ evs" by blast
  obtain r2 w2 where rb: "tx_rollback sv w1 = (r2, w2)" by (cases "tx_rollback sv w1")
  from run c t rb have "trace w' = trace w2 @ [EvRelease]"
    by (auto simp: processCallEnded_def split: sum.splits)
  with trace_tx_rollback [OF rb] evs have "trace w' = trace w @ (evs @ [EvSql Rollback, EvRelease])"
    by simp
  then have "new_events w w' = evs @ [EvSql Rollback, EvRelease]"
    by (rule new_events_append)
  then show ?thesis by simp
qed

text \<open>Past \<open>getClient\<close>, a failure ends with the transaction closed, unless the error
  thrown is that of the ROLLBACK itself (the database rejected it); and a database that
  accepts every ROLLBACK always ends with the transaction closed.\<close>

lemma failure_closes_transaction:
  assumes run: "processCallEnded sv data w = (Inl e, w')" and c: "\<not> connect_fails sv"
    and rb: "e \<noteq> DbError Rollback \<or> (\<forall>d. \<not> db_fails sv Rollback d)"
  shows "tx w' = None"
proof -
  obtain r1 w1 where t: "processCallEnded_try sv data w = (r1, w1)"
    by (cases "processCallEnded_try sv data w")
  obtain r2 w2 where b: "tx_rollback sv w1 = (r2, w2)" by (cases "tx_rollback sv w1")
  from run c t b obtain e1 where r1: "r1 = Inl e1" and w': "w' = emit EvRelease w2"
    and e: "e = (case r2 of Inl e' \<Rightarrow> e' | Inr u \<Rightarrow> e1)"
    by (auto simp: processCallEnded_def split: sum.splits)
  from b rb e have "tx w2 = None"
    by (auto simp: tx_rollback_def Let_def split: if_splits)
  with w' show ?thesis by (simp add: emit_def)
qed

text \<open>
  C1: whenever the processing of a call-ended event fails, at whichever step (no client from
  the pool, BEGIN, the update of the call, the insert of the analysis, any statement of the
  booking creation, COMMIT), the committed database is the one from before the event: the
  call row keeps its prior status, and no analysis, customer, vehicle or booking row of the
  invocation is kept. When no client could be had, nothing at all has changed. Otherwise
  the ROLLBACK has been issued and the client released, and the transaction is rolled
  back: it is closed, so that the working copy with the rows of the invocation is dropped
  and the data the connection sees next is the data from before the event. This holds
  whenever the error thrown is not that of the ROLLBACK itself, hence for every failure
  on a database that accepts ROLLBACK. (When the database rejects the ROLLBACK, the catch
  block throws the error of the ROLLBACK in place of the first one and the client is
  released as it is; the committed data is unchanged then too.)
\<close>

theorem C1_call_ended_atomic:
  assumes "processCallEnded sv data w = (Inl e, w')"
  shows "committed w' = committed w \<and>
         calls (committed w') = calls (committed w) \<and>
         call_analysis (committed w') = call_analysis (committed w) \<and>
         customers (committed w') = customers (committed w) \<and>
         vehicles (committed w') = vehicles (committed w) \<and>
         bookings (committed w') = bookings (committed w) \<and>
         (\<not> connect_fails sv \<longrightarrow>
            EvSql Rollback \<in> set (new_events w w') \<and> last (new_events w w') = EvRelease) \<and>
         (connect_fails sv \<longrightarrow> w' = w) \<and>
         (\<not> connect_fails sv \<and> e \<noteq> DbError Rollback \<longrightarrow>
            tx w' = None \<and> session_db w' = committed w) \<and>
         (\<not> connect_fails sv \<and> (\<forall>d. \<not> db_fails sv Rollback d) \<longrightarrow>
            tx w' = None \<and> session_db w' = committed w)"
proof -
  have kept: "committed w' = committed w"
    using processCallEnded_failure [OF assms] by simp
  have issued: "\<not> connect_fails sv \<longrightarrow>
      EvSql Rollback \<in> set (new_events w w') \<and> last (new_events w w') = EvRelease"
    using failure_rolls_back [OF assms] by simp
  have none: "connect_fails sv \<longrightarrow> w' = w"
    using assms by (auto simp: processCallEnded_def)
  have closed: "\<not> connect_fails sv \<and>
      (e \<noteq> DbError Rollback \<or> (\<forall>d. \<not> db_fails sv Rollback d)) \<longrightarrow> tx w' = None"
    using failure_closes_transaction [OF assms] by blast
  from kept closed have seen: "\<not> connect_fails sv \<and>
      (e \<noteq> DbError Rollback \<or> (\<forall>d. \<not> db_fails sv Rollback d)) \<longrightarrow>
      session_db w' = committed w"
    by (simp add: session_db_def)
  from kept issued none closed seen show ?thesis by simp
qed

theorem C1_call_ended_atomic_witness:
  "processCallEnded services_booking_rejected call_ended_1 world_0 =
     (Inl (DbError (InsertBooking 7 100 (Some 101) 1 (Some 1738247400000)
             (Some ''brakes squeal'') ''brakes'' ''normal'' ''confirmed'')),
      snd (processCallEnded services_booking_rejected call_ended_1 world_0))
   \<and> committed (snd (processCallEnded services_booking_rejected call_ended_1 world_0)) = db_0
   \<and> map call_status (calls (committed (snd (processCallEnded services_booking_rejected call_ended_1 world_0))))
        = [''in-progress'', ''in-progress'']
   \<and> bookings (committed (snd (processCallEnded services_booking_rejected call_ended_1 world_0))) = []
   \<and> tx (snd (processCallEnded services_booking_rejected call_ended_1 world_0)) = None
   \<and> session_db (snd (processCallEnded services_booking_rejected call_ended_1 world_0)) = db_0
   \<and> processCallEnded (services_ok\<lparr>connect_fails := True\<rparr>) call_ended_1 world_0 =
       (Inl ConnectError, world_0)"
proof -
  have n: "processCallEnded (services_ok\<lparr>connect_fails := True\<rparr>) call_ended_1 world_0 =
       (Inl ConnectError,
        snd (processCallEnded (services_ok\<lparr>connect_fails := True\<rparr>) call_ended_1 world_0))"
    by (simp add: processCallEnded_def)
  from C1_call_ended_atomic [OF n]
  have n': "snd (processCallEnded (services_ok\<lparr>connect_fails := True\<rparr>) call_ended_1 world_0) =
       world_0"
    by simp
  have run: "fst (processCallEnded services_booking_rejected call_ended_1 world_0) =
     Inl (DbError (InsertBooking 7 100 (Some 101) 1 (Some 1738247400000)
             (Some ''brakes squeal'') ''brakes'' ''normal'' ''confirmed''))"
    by code_simp
  then have r: "processCallEnded services_booking_rejected call_ended_1 world_0 =
     (Inl (DbError (InsertBooking 7 100 (Some 101) 1 (Some 1738247400000)
             (Some ''brakes squeal'') ''brakes'' ''normal'' ''confirmed'')),
      snd (processCallEnded services_booking_rejected call_ended_1 world_0))"
    by (simp add: prod_eq_iff)
  have w0: "committed world_0 = db_0" by (simp add: world_0_def)
  have c: "\<not> connect_fails services_booking_rejected"
    by (simp add: services_booking_rejected_def services_ok_def)
  have d0: "map call_status (calls db_0) = [''in-progress'', ''in-progress'']" "bookings db_0 = []"
    by (simp_all add: db_0_def)
  from C1_call_ended_atomic [OF r] r w0 c d0 n n' show ?thesis by simp
qed

section \<open>When a booking is created (claim C2)\<close>

text \<open>
  C2: for a call-ended event processed on a client with no transaction open, a run that
  commits has added a booking row for the call exactly when the structured data has
  booking-confirmed = true and a non-empty customer name; and when either condition fails,
  the event adds no booking, no customer and no vehicle, whether the run commits or fails.
\<close>

theorem C2_booking_iff_confirmed_and_named:
  assumes "tx w = None" and "processCallEnded sv data w = (r, w')"
  shows "(r = Inr () \<longrightarrow>
           ((\<exists>b. bookings (committed w') = bookings (committed w) @ [b] \<and>
                 bk_call_id b = callId data \<and> bk_status b = ''confirmed'') \<longleftrightarrow>
            (booking_confirmed (structuredData data) = Some True \<and>
             (\<exists>n. customer_name (structuredData data) = Some n \<and> n \<noteq> []))))
       \<and> (\<not> (booking_confirmed (structuredData data) = Some True \<and>
             (\<exists>n. customer_name (structuredData data) = Some n \<and> n \<noteq> [])) \<longrightarrow>
            bookings (committed w') = bookings (committed w) \<and>
            customers (committed w') = customers (committed w) \<and>
            vehicles (committed w') = vehicles (committed w))"
proof (cases r)
  case (Inl e)
  with assms(2) have "committed w' = committed w" by (simp add: processCallEnded_failure)
  with Inl show ?thesis by simp
next
  case (Inr u)
  with assms(2) processCallEnded_ok obtain w1 where
    t: "processCallEnded_try sv data w = (Inr (), w1)" and c: "committed w' = committed w1"
    by blast
  show ?thesis
  proof (cases "wants_booking data")
    case True
    from try_ok(4) [OF t assms(1) True] obtain b where
      "bookings (committed w1) = bookings (committed w) @ [b]" "bk_call_id b = callId data"
      "bk_status b = ''confirmed''"
      by blast
    with True c show ?thesis by (auto simp: wants_booking_iff)
  next
    case False
    from try_ok(3) [OF t assms(1) False] False c show ?thesis
      by (auto simp: wants_booking_iff)
  qed
qed

theorem C2_booking_iff_confirmed_and_named_witness:
  "tx world_0 = None
   \<and> fst (processCallEnded services_ok call_ended_1 world_0) = Inr ()
   \<and> booking_confirmed (structuredData call_ended_1) = Some True
   \<and> customer_name (structuredData call_ended_1) = Some ''Ann''
   \<and> (\<exists>b. bookings (committed (snd (processCallEnded services_ok call_ended_1 world_0))) =
            bookings (committed world_0) @ [b] \<and> bk_call_id b = callId call_ended_1 \<and>
            bk_status b = ''confirmed'')
   \<and> customer_name (structuredData call_ended_no_name) = None
   \<and> bookings (committed (snd (processCallEnded services_ok call_ended_no_name world_0))) = []
   \<and> customers (committed (snd (processCallEnded services_ok call_ended_no_name world_0))) = []
   \<and> vehicles (committed (snd (processCallEnded services_ok call_ended_no_name world_0))) = []"
proof -
  have t: "tx world_0 = None" by (simp add: world_0_def)
  have run: "fst (processCallEnded services_ok call_ended_1 world_0) = Inr ()"
    by (simp add: sample_run_ok)
  then have r: "processCallEnded services_ok call_ended_1 world_0 =
      (Inr (), snd (processCallEnded services_ok call_ended_1 world_0))"
    by (simp add: prod_eq_iff)
  have r2: "processCallEnded services_ok call_ended_no_name world_0 =
      (fst (processCallEnded services_ok call_ended_no_name world_0),
       snd (processCallEnded services_ok call_ended_no_name world_0))"
    by simp
  have sd: "booking_confirmed (structuredData call_ended_1) = Some True"
    "customer_name (structuredData call_ended_1) = Some ''Ann''"
    "customer_name (structuredData call_ended_no_name) = None"
    by (simp_all add: call_ended_1_def call_ended_no_name_def sd_confirmed_def)
  have e: "bookings (committed world_0) = []" "customers (committed world_0) = []"
    "vehicles (committed world_0) = []"
    by (simp_all add: world_0_def db_0_def)
  from C2_booking_iff_confirmed_and_named [OF t r] C2_booking_iff_confirmed_and_named [OF t r2]
    t run sd e
  show ?thesis by simp
qed

section \<open>The booking-created flag of the analysis row (claim C4)\<close>

lemma analysis_params_flag:
  "ca_booking_created (analysis_params data) = truthy_bool (booking_confirmed (structuredData data))
   \<and> (sentiment data = None \<longrightarrow> ca_sentiment (analysis_params data) = ''neutral'')"
  by (simp add: analysis_params_def Let_def sentiment_label_def)

text \<open>
  C4 at an input where the code departs from it: for structured data with booking-confirmed
  = true and no customer name, the run commits an analysis row whose booking-created flag is
  already true, although no booking is created (the bookings table stays empty). The
  sentiment defaults to "neutral" as the claim says.
\<close>

theorem C4_booking_created_set_at_insert:
  "fst (processCallEnded services_ok call_ended_no_name world_0) = Inr ()
   \<and> map ca_booking_created
       (call_analysis (committed (snd (processCallEnded services_ok call_ended_no_name world_0)))) = [True]
   \<and> bookings (committed (snd (processCallEnded services_ok call_ended_no_name world_0))) = []
   \<and> map ca_sentiment
       (call_analysis (committed (snd (processCallEnded services_ok call_ended_no_name world_0)))) = [''neutral'']"
proof -
  let ?w = "snd (processCallEnded services_ok call_ended_no_name world_0)"
  have f: "fst (processCallEnded services_ok call_ended_no_name world_0) = Inr ()"
    by code_simp
  then have "processCallEnded services_ok call_ended_no_name world_0 = (Inr (), ?w)"
    by (simp add: prod_eq_iff)
  with processCallEnded_ok obtain w1 where
    t: "processCallEnded_try services_ok call_ended_no_name world_0 = (Inr (), w1)" and
    c: "committed ?w = committed w1"
    by blast
  have n: "\<not> wants_booking call_ended_no_name"
    by (simp add: wants_booking_def call_ended_no_name_def truthy_str_def)
  have t0: "tx world_0 = None" by (simp add: world_0_def)
  have e: "bookings (committed world_0) = []" "call_analysis (committed world_0) = []"
    by (simp_all add: world_0_def db_0_def)
  have a: "ca_booking_created (analysis_params call_ended_no_name) = True"
    "ca_sentiment (analysis_params call_ended_no_name) = ''neutral''"
    by (simp_all add: analysis_params_def Let_def call_ended_no_name_def call_ended_1_def
          sd_confirmed_def truthy_bool_def sentiment_label_def)
  from try_ok(3) [OF t t0 n] c e a f show ?thesis by simp
qed

section \<open>The notification request and the transaction (claim C3)\<close>

text \<open>
  C3, as the code has it. The notification request is sent by createBooking inside the
  transaction of the call-ended event: the events before it are BEGIN, the update of the
  call, the insert of the analysis, and the data statements of createBooking, among them the
  insert of the booking and the update of the booking-created flag; no COMMIT comes before
  it, and the COMMIT is issued after it. The request carries the id of the booking, the
  workshop id, the customer id, the customer email and the scheduled time.
\<close>

theorem C3_post_inside_transaction:
  assumes "processCallEnded sv data w = (r, w')"
  shows "from_post (new_events w w') = [] \<or>
         (\<exists>b pre. before_post (new_events w w') =
                 [EvSql Begin,
                  EvSql (UpdateCall ''completed'' (duration data) (cost data) (recording data)
                           (transcript data) (callId data)),
                  EvSql (InsertCallAnalysis (analysis_params data))] @ pre \<and>
               list_all data_event pre \<and>
               EvSql (booking_stmt (bookingData data) b) \<in> set pre \<and>
               EvSql (MarkBookingCreated (callId data)) \<in> set pre \<and>
               hd (from_post (new_events w w')) = EvPost (booking_payload (bookingData data) b) \<and>
               EvSql Commit \<notin> set (before_post (new_events w w')) \<and>
               EvSql Commit \<in> set (tl (from_post (new_events w w'))))"
proof -
  from processCallEnded_trace [OF assms] obtain evs tl where
    tr: "trace w' = trace w @ evs @ tl" and tl: "list_all (\<lambda>e. \<not> is_post e) tl" and
    alt: "list_all (\<lambda>e. \<not> is_post e) evs \<and> ((\<exists>e. r = Inl e) \<or> \<not> wants_booking data) \<or>
           (\<exists>b pre. list_all data_event pre \<and>
              EvSql (booking_stmt (bookingData data) b) \<in> set pre \<and>
              EvSql (MarkBookingCreated (callId data)) \<in> set pre \<and>
              evs = [EvSql Begin,
                     EvSql (UpdateCall ''completed'' (duration data) (cost data) (recording data)
                              (transcript data) (callId data)),
                     EvSql (InsertCallAnalysis (analysis_params data))] @ pre @
                    EvPost (booking_payload (bookingData data) b) #
                    (if post_fails sv (booking_payload (bookingData data) b) then [EvWarn] else []) @
                    [EvSql Commit])"
    by blast
  from tr have ne: "new_events w w' = evs @ tl" by (simp add: new_events_append)
  from alt show ?thesis
  proof
    assume "list_all (\<lambda>e. \<not> is_post e) evs \<and> ((\<exists>e. r = Inl e) \<or> \<not> wants_booking data)"
    with tl have "list_all (\<lambda>e. \<not> is_post e) (evs @ tl)" by simp
    from from_post_none [OF this] ne show ?thesis by simp
  next
    assume "\<exists>b pre. list_all data_event pre \<and>
              EvSql (booking_stmt (bookingData data) b) \<in> set pre \<and>
              EvSql (MarkBookingCreated (callId data)) \<in> set pre \<and>
              evs = [EvSql Begin,
                     EvSql (UpdateCall ''completed'' (duration data) (cost data) (recording data)
                              (transcript data) (callId data)),
                     EvSql (InsertCallAnalysis (analysis_params data))] @ pre @
                    EvPost (booking_payload (bookingData data) b) #
                    (if post_fails sv (booking_payload (bookingData data) b) then [EvWarn] else []) @
                    [EvSql Commit]"
    then obtain b pre where pre: "list_all data_event pre"
        "EvSql (booking_stmt (bookingData data) b) \<in> set pre"
        "EvSql (MarkBookingCreated (callId data)) \<in> set pre" and
      evs: "evs = [EvSql Begin,
                     EvSql (UpdateCall ''completed'' (duration data) (cost data) (recording data)
                              (transcript data) (callId data)),
                     EvSql (InsertCallAnalysis (analysis_params data))] @ pre @
                    EvPost (booking_payload (bookingData data) b) #
                    (if post_fails sv (booking_payload (bookingData data) b) then [EvWarn] else []) @
                    [EvSql Commit]"
      by blast
    let ?head = "[EvSql Begin,
                  EvSql (UpdateCall ''completed'' (duration data) (cost data) (recording data)
                           (transcript data) (callId data)),
                  EvSql (InsertCallAnalysis (analysis_params data))] @ pre"
    let ?rest = "(if post_fails sv (booking_payload (bookingData data) b) then [EvWarn] else []) @
                    [EvSql Commit] @ tl"
    have np: "list_all (\<lambda>e. \<not> is_post e) ?head"
      using data_event_no_post [OF pre(1)] by simp
    have ne': "new_events w w' = ?head @ EvPost (booking_payload (bookingData data) b) # ?rest"
      using ne evs by simp
    have bp: "before_post (new_events w w') = ?head"
      unfolding ne' by (rule before_post_split [OF np])
    have fp: "from_post (new_events w w') = EvPost (booking_payload (bookingData data) b) # ?rest"
      unfolding ne' by (rule from_post_split [OF np])
    have nc: "EvSql Commit \<notin> set ?head"
      using data_event_no_commit [OF pre(1)] by simp
    show ?thesis
      using pre bp fp nc by (intro disjI2 exI [of _ b] exI [of _ pre]) simp
  qed
qed

theorem C3_post_inside_transaction_witness:
  "processCallEnded services_ok call_ended_1 world_0 = (Inr (), world_1)
   \<and> from_post (new_events world_0 world_1) \<noteq> []
   \<and> EvSql Begin \<in> set (before_post (new_events world_0 world_1))
   \<and> EvSql Commit \<notin> set (before_post (new_events world_0 world_1))
   \<and> EvSql Commit \<in> set (tl (from_post (new_events world_0 world_1)))"
proof -
  have n: "new_events world_0 world_1 = trace_1"
    by (simp add: new_events_def world_0_def world_1_def)
  have p: "from_post trace_1 \<noteq> []"
    by (simp add: trace_1_def from_post_def)
  from C3_post_inside_transaction [OF sample_run_ok] p sample_run_ok show ?thesis
    unfolding n by auto
qed

text \<open>
  C3 as stated fails on the first sample call with everything working: the notification
  request is among the events, and no COMMIT comes before it.
\<close>

theorem C3_counterexample:
  "processCallEnded services_ok call_ended_1 world_0 = (Inr (), world_1) \<and>
   \<not> post_after_commit (new_events world_0 world_1)"
proof -
  have n: "new_events world_0 world_1 = trace_1"
    by (simp add: new_events_def world_0_def world_1_def)
  have "\<not> post_after_commit trace_1"
    by (simp add: post_after_commit_def trace_1_def from_post_def before_post_def booking_stmt_def)
  with n sample_run_ok show ?thesis by simp
qed

section \<open>Customer deduplication (claim C8)\<close>

text \<open>A missing phone number is NULL in the comparison and matches no customer row.\<close>

lemma missing_phone_never_matches: "\<not> customer_matches wid None c"
  by (simp add: customer_matches_def)

text \<open>
  C8: two call-ended events with booking creation for the same workshop and the same phone
  number, processed one after the other on a database that holds at most one customer for
  the pair, leave exactly one customer row for the pair: the first event inserts it unless
  it is there already, the second finds it, and both bookings carry its id.
\<close>

theorem C8_customer_dedup:
  assumes t: "tx w0 = None"
    and le: "length (filter (customer_matches wid (Some ph)) (customers (committed w0))) \<le> 1"
    and wb: "wants_booking d1" "wants_booking d2"
    and wid: "workshopId d1 = wid" "workshopId d2 = wid"
    and ph: "customer_phone (structuredData d1) = Some ph"
            "customer_phone (structuredData d2) = Some ph"
    and run1: "processCallEnded sv1 d1 w0 = (Inr (), w1)"
    and run2: "processCallEnded sv2 d2 w1 = (Inr (), w2)"
  shows "\<exists>c b1 b2.
           filter (customer_matches wid (Some ph)) (customers (committed w2)) = [c] \<and>
           bookings (committed w2) = bookings (committed w0) @ [b1, b2] \<and>
           bk_customer_id b1 = cust_id c \<and> bk_customer_id b2 = cust_id c \<and>
           customers (committed w2) =
             (if filter (customer_matches wid (Some ph)) (customers (committed w0)) = []
              then customers (committed w0) @ [c] else customers (committed w0))"
proof -
  let ?m = "customer_matches wid (Some ph)"
  from run1 processCallEnded_ok obtain u1 where
    t1: "processCallEnded_try sv1 d1 w0 = (Inr (), u1)" and c1: "committed w1 = committed u1"
    and x1: "tx w1 = tx u1"
    by blast
  from try_ok(1) [OF t1 t] x1 have tw1: "tx w1 = None" by simp
  have first: "\<exists>c b1. filter ?m (customers (committed w1)) = [c] \<and>
      bookings (committed w1) = bookings (committed w0) @ [b1] \<and> bk_customer_id b1 = cust_id c \<and>
      customers (committed w1) =
             (if filter ?m (customers (committed w0)) = []
              then customers (committed w0) @ [c] else customers (committed w0))"
  proof (cases "filter ?m (customers (committed w0))")
    case Nil
    from try_ok(4) [OF t1 t wb(1)] Nil wid(1) ph(1) c1 obtain b1 where
      b1: "bookings (committed w1) = bookings (committed w0) @ [b1]" and
      cs1: "customers (committed w1) = customers (committed w0) @
            [\<lparr>cust_id = bk_customer_id b1, cust_workshop_id = wid,
              cust_name = customer_name (structuredData d1), cust_phone = Some ph,
              cust_email = customer_email (structuredData d1)\<rparr>]"
      by auto
    let ?c = "\<lparr>cust_id = bk_customer_id b1, cust_workshop_id = wid,
              cust_name = customer_name (structuredData d1), cust_phone = Some ph,
              cust_email = customer_email (structuredData d1)\<rparr>"
    have "filter ?m (customers (committed w1)) = [?c]"
      using Nil cs1 by (simp add: customer_matches_def)
    with b1 cs1 Nil show ?thesis
      by (intro exI [of _ ?c] exI [of _ b1]) simp
  next
    case (Cons c0 cs)
    with le have one: "filter ?m (customers (committed w0)) = [c0]" by simp
    from try_ok(4) [OF t1 t wb(1)] one wid(1) ph(1) c1 obtain b1 where
      "bookings (committed w1) = bookings (committed w0) @ [b1]"
      "customers (committed w1) = customers (committed w0)" "bk_customer_id b1 = cust_id c0"
      by auto
    with one show ?thesis
      by (intro exI [of _ c0] exI [of _ b1]) simp
  qed
  then obtain c b1 where
    f1: "filter ?m (customers (committed w1)) = [c]" and
    b1: "bookings (committed w1) = bookings (committed w0) @ [b1]" "bk_customer_id b1 = cust_id c" and
    cs1: "customers (committed w1) =
             (if filter ?m (customers (committed w0)) = []
              then customers (committed w0) @ [c] else customers (committed w0))"
    by blast
  from run2 processCallEnded_ok obtain u2 where
    t2: "processCallEnded_try sv2 d2 w1 = (Inr (), u2)" and c2: "committed w2 = committed u2"
    by blast
  from try_ok(4) [OF t2 tw1 wb(2)] f1 wid(2) ph(2) c2 obtain b2 where
    b2: "bookings (committed w2) = bookings (committed w1) @ [b2]" and
    cs2: "customers (committed w2) = customers (committed w1)" and
    id2: "bk_customer_id b2 = cust_id c"
    by auto
  from b1 b2 cs1 cs2 id2 f1 show ?thesis
    by (intro exI [of _ c] exI [of _ b1] exI [of _ b2]) simp
qed

theorem C8_customer_dedup_witness:
  "tx world_0 = None
   \<and> filter (customer_matches 7 (Some ''555-0100'')) (customers (committed world_0)) = []
   \<and> processCallEnded services_ok call_ended_1 world_0 = (Inr (), world_1)
   \<and> fst (processCallEnded services_ok call_ended_2 world_1) = Inr ()
   \<and> length (customers (committed (snd (processCallEnded services_ok call_ended_2 world_1)))) = 1
   \<and> length (bookings (committed (snd (processCallEnded services_ok call_ended_2 world_1)))) = 2"
proof -
  let ?w2 = "snd (processCallEnded services_ok call_ended_2 world_1)"
  have t: "tx world_0 = None" by (simp add: world_0_def)
  have e: "customers (committed world_0) = []" "bookings (committed world_0) = []"
    by (simp_all add: world_0_def db_0_def)
  then have none: "filter (customer_matches 7 (Some ''555-0100'')) (customers (committed world_0)) = []"
    by simp
  then have le: "length (filter (customer_matches 7 (Some ''555-0100'')) (customers (committed world_0))) \<le> 1"
    by simp
  have wb: "wants_booking call_ended_1" "wants_booking call_ended_2"
    by (simp_all add: wants_booking_def call_ended_1_def call_ended_2_def sd_confirmed_def
          truthy_str_def truthy_bool_def)
  have wid: "workshopId call_ended_1 = 7" "workshopId call_ended_2 = 7"
    by (simp_all add: call_ended_1_def call_ended_2_def)
  have ph: "customer_phone (structuredData call_ended_1) = Some ''555-0100''"
    "customer_phone (structuredData call_ended_2) = Some ''555-0100''"
    by (simp_all add: call_ended_1_def call_ended_2_def sd_confirmed_def)
  note r1 = sample_run_ok
  have r2: "processCallEnded services_ok call_ended_2 world_1 = (Inr (), ?w2)"
    using sample_run_second by (simp add: prod_eq_iff)
  from C8_customer_dedup [OF t le wb wid ph r1 r2] none obtain c b1 b2 where
    "customers (committed ?w2) = customers (committed world_0) @ [c]"
    "bookings (committed ?w2) = bookings (committed world_0) @ [b1, b2]"
    by auto
  with t none r1 sample_run_second e show ?thesis by simp
qed

section \<open>Failure of the notification (claim C9)\<close>

text \<open>
  C9: for a call-ended event that creates a booking when the notification works, whatever
  the outcome of the notification request is, the processing returns normally with the same
  committed data, the booking row for the call among them; and when the request fails, the
  warning is logged.
\<close>

theorem C9_notification_failure_isolated:
  assumes t: "tx w = None" and wb: "wants_booking data"
    and ok: "processCallEnded (sv\<lparr>post_fails := (\<lambda>p. False)\<rparr>) data w = (Inr (), w_ok)"
    and run: "processCallEnded (sv\<lparr>post_fails := pf\<rparr>) data w = (r, w')"
  shows "r = Inr () \<and> committed w' = committed w_ok \<and>
         (\<exists>b. bookings (committed w') = bookings (committed w) @ [b] \<and>
              bk_call_id b = callId data \<and> bk_status b = ''confirmed'') \<and>
         ((\<forall>p. pf p) \<longrightarrow> EvWarn \<in> set (new_events w w'))"
proof -
  from processCallEnded_post_blind [OF _ _ _ _ ok run]
  have r: "r = Inr ()" and c: "committed w' = committed w_ok"
    by simp_all
  from run r processCallEnded_ok obtain w1 where
    tr: "processCallEnded_try (sv\<lparr>post_fails := pf\<rparr>) data w = (Inr (), w1)" and
    c1: "committed w' = committed w1"
    by blast
  from try_ok(4) [OF tr t wb] c1
  have b: "\<exists>b. bookings (committed w') = bookings (committed w) @ [b] \<and>
              bk_call_id b = callId data \<and> bk_status b = ''confirmed''"
    by auto
  from processCallEnded_trace [OF run] r wb obtain evs tl b pre where
    "trace w' = trace w @ evs @ tl" and
    "evs = [EvSql Begin,
                     EvSql (UpdateCall ''completed'' (duration data) (cost data) (recording data)
                              (transcript data) (callId data)),
                     EvSql (InsertCallAnalysis (analysis_params data))] @ pre @
                    EvPost (booking_payload (bookingData data) b) #
                    (if post_fails (sv\<lparr>post_fails := pf\<rparr>) (booking_payload (bookingData data) b) then [EvWarn] else []) @
                    [EvSql Commit]"
    by auto
  then have "(\<forall>p. pf p) \<longrightarrow> EvWarn \<in> set (new_events w w')"
    by (simp add: new_events_def)
  with r c b show ?thesis by simp
qed

theorem C9_notification_failure_isolated_witness:
  "tx world_0 = None \<and> wants_booking call_ended_1
   \<and> fst (processCallEnded services_ok call_ended_1 world_0) = Inr ()
   \<and> fst (processCallEnded services_post_down call_ended_1 world_0) = Inr ()
   \<and> committed (snd (processCallEnded services_post_down call_ended_1 world_0)) =
       committed (snd (processCallEnded services_ok call_ended_1 world_0))
   \<and> (\<exists>b. bookings (committed (snd (processCallEnded services_post_down call_ended_1 world_0))) = [b] \<and>
           bk_call_id b = 1 \<and> bk_status b = ''confirmed'')
   \<and> EvWarn \<in> set (new_events world_0 (snd (processCallEnded services_post_down call_ended_1 world_0)))"
proof -
  have t: "tx world_0 = None" by (simp add: world_0_def)
  have wb: "wants_booking call_ended_1"
    by (simp add: wants_booking_def call_ended_1_def sd_confirmed_def truthy_str_def truthy_bool_def)
  have s1: "services_ok\<lparr>post_fails := (\<lambda>p. False)\<rparr> = services_ok"
    and s2: "services_ok\<lparr>post_fails := (\<lambda>p. True)\<rparr> = services_post_down"
    by (simp_all add: services_ok_def services_post_down_def)
  have f: "fst (processCallEnded services_ok call_ended_1 world_0) = Inr ()"
    by (simp add: sample_run_ok)
  then have ok: "processCallEnded (services_ok\<lparr>post_fails := (\<lambda>p. False)\<rparr>) call_ended_1 world_0 =
      (Inr (), snd (processCallEnded services_ok call_ended_1 world_0))"
    unfolding s1 by (simp add: prod_eq_iff)
  have run: "processCallEnded (services_ok\<lparr>post_fails := (\<lambda>p. True)\<rparr>) call_ended_1 world_0 =
      (fst (processCallEnded services_post_down call_ended_1 world_0),
       snd (processCallEnded services_post_down call_ended_1 world_0))"
    unfolding s2 by simp
  have e: "bookings (committed world_0) = []" "callId call_ended_1 = 1"
    by (simp_all add: world_0_def db_0_def call_ended_1_def)
  from C9_notification_failure_isolated [OF t wb ok run] t wb f e show ?thesis
    by auto
qed

section \<open>Signature verification (claim C5)\<close>

text \<open>The sample bodies parse, and the parsed values are written out in the compact form:
  the three bodies with the same note parse to one value.\<close>

lemma parse_signed: "parse_json body_signed = Some note_value" by code_simp
lemma parse_altered: "parse_json body_altered = Some note_value" by code_simp
lemma parse_spaced: "parse_json body_spaced = Some note_value" by code_simp
lemma parse_forged: "parse_json body_forged = Some forged_value" by code_simp
lemma stringify_note: "stringify note_value = body_signed" by code_simp
lemma stringify_forged: "stringify forged_value = body_forged" by code_simp

lemma runtime_demo_fields:
  "hmac_sha256_hex runtime_demo = toy_mac" "VAPI_WEBHOOK_SECRET runtime_demo = ''s''"
  "JSON_stringify runtime_demo = stringify" "date_now runtime_demo div 1000 = 1738245600"
  "to_number runtime_demo ''1738245600'' = Some 1738245600"
  "to_number runtime_demo ''1738245000'' = Some 1738245000"
  by (simp_all add: runtime_demo_def decimal_number_def is_digit_def parseInt_def digit_val_def)

lemma sent_demo_fields:
  "sent_signature sent_demo = Some (toy_mac ''s'' (''1738245600.'' @ body_signed))"
  "sent_timestamp sent_demo = Some ''1738245600''" "sent_body sent_demo = body_signed"
  by (simp_all add: sent_demo_def)

lemma toy_mac_nonempty: "toy_mac ''s'' m \<noteq> []"
  by (simp add: toy_mac_def)

lemma toy_mac_inj: "toy_mac k m = toy_mac k m' \<longleftrightarrow> m = m'"
  by (auto simp: toy_mac_def)

lemmas verify_eval = verify_sent_def received_def verifyVapiSignature_def truthy_str_def
  too_old_def Let_def expectedSignature_def payload_def runtime_demo_fields sent_demo_fields
  toy_mac_nonempty stringify_note stringify_forged

lemma verify_sent_demo: "verify_sent runtime_demo parse_json sent_demo = Some (Inr True)"
  by (simp add: verify_eval parse_signed)

text \<open>The verifier as a chain of tests, and the freshness test written out.\<close>

lemma verify_cases:
  "verifyVapiSignature rt req =
     (if \<not> truthy_str (x_vapi_signature req) \<or> \<not> truthy_str (x_vapi_timestamp req)
      then Inl MissingSignatureOrTimestamp
      else if too_old rt (the (x_vapi_timestamp req)) then Inl WebhookTimestampTooOld
      else if the (x_vapi_signature req) \<noteq>
              hmac_sha256_hex rt (VAPI_WEBHOOK_SECRET rt)
                (the (x_vapi_timestamp req) @ ''.'' @ JSON_stringify rt (req_body req))
      then Inl InvalidSignature else Inr True)"
  by (auto simp: verifyVapiSignature_def expectedSignature_def payload_def truthy_str_def
        split: option.splits)

lemma too_old_iff:
  "too_old rt ts \<longleftrightarrow>
     (\<exists>t. to_number rt ts = Some t \<and> \<bar>real_of_int (date_now rt div 1000) - t\<bar> > 300)"
  by (auto simp: too_old_def Let_def split: option.splits)

text \<open>
  C5 as stated fails in its last sentence. The sample request is signed over the timestamp,
  a dot and the body exactly as sent, and is accepted. With the byte at position 15 of
  the body altered (the hex digit \<open>f\<close> of the escape to \<open>F\<close>), and also with a space added
  after the colon, the body differs from the signed one and the request is still accepted
  under the same signature: the altered bodies parse to the value of the signed one, and
  the digest is taken over that value written out again.
\<close>

theorem C5_counterexample:
  "sent_signature sent_demo =
     Some (hmac_sha256_hex runtime_demo (VAPI_WEBHOOK_SECRET runtime_demo)
             (''1738245600.'' @ sent_body sent_demo))
   \<and> sent_timestamp sent_demo = Some ''1738245600''
   \<and> verify_sent runtime_demo parse_json sent_demo = Some (Inr True)
   \<and> sent_body sent_demo ! 15 = CHR ''f''
   \<and> body_altered = (sent_body sent_demo)[15 := CHR ''F'']
   \<and> body_altered \<noteq> sent_body sent_demo
   \<and> verify_sent runtime_demo parse_json (sent_demo\<lparr>sent_body := body_altered\<rparr>) = Some (Inr True)
   \<and> body_spaced \<noteq> sent_body sent_demo
   \<and> verify_sent runtime_demo parse_json (sent_demo\<lparr>sent_body := body_spaced\<rparr>) = Some (Inr True)"
proof -
  have b: "body_signed ! 15 = CHR ''f''" "body_altered = body_signed[15 := CHR ''F'']"
    "body_altered \<noteq> body_signed" "body_spaced \<noteq> body_signed"
    by (simp_all add: body_signed_def body_altered_def body_spaced_def)
  have a: "verify_sent runtime_demo parse_json (sent_demo\<lparr>sent_body := body_altered\<rparr>) = Some (Inr True)"
    by (simp add: verify_eval parse_altered)
  have s: "verify_sent runtime_demo parse_json (sent_demo\<lparr>sent_body := body_spaced\<rparr>) = Some (Inr True)"
    by (simp add: verify_eval parse_spaced)
  from b a s verify_sent_demo show ?thesis
    by (simp add: sent_demo_fields runtime_demo_fields)
qed

text \<open>
  C5, amended: the verification fails when the signature header or the timestamp header is
  absent (or empty); with both present it fails when the timestamp is a number that differs
  from the current time in seconds by more than 300; otherwise it fails when the signature
  differs from the hex digest of HMAC-SHA256, under the secret, over the timestamp, a dot
  and \<open>JSON.stringify\<close> of the parsed body; and otherwise it succeeds. For a request that is
  accepted and a second request with the same two headers and any other body: a body that
  the body parser rejects does not reach the verifier; a body that parses to a value which
  \<open>JSON.stringify\<close> writes as it writes the value of the first is accepted as well; and
  in general the second request is accepted exactly when the digest over the timestamp, a
  dot and its parsed body written out equals that of the first, and is rejected as an
  invalid signature otherwise. So altering bytes of the body invalidates the signature only
  when it changes that digest.
\<close>

theorem C5_signature_verification:
  "(\<not> truthy_str (x_vapi_signature req) \<or> \<not> truthy_str (x_vapi_timestamp req) \<longrightarrow>
      verifyVapiSignature rt req = Inl MissingSignatureOrTimestamp)
 \<and> (\<forall>sg ts. x_vapi_signature req = Some sg \<and> sg \<noteq> [] \<and>
             x_vapi_timestamp req = Some ts \<and> ts \<noteq> [] \<longrightarrow>
      ((\<exists>t. to_number rt ts = Some t \<and> \<bar>real_of_int (date_now rt div 1000) - t\<bar> > 300) \<longrightarrow>
         verifyVapiSignature rt req = Inl WebhookTimestampTooOld)
    \<and> (\<not> (\<exists>t. to_number rt ts = Some t \<and> \<bar>real_of_int (date_now rt div 1000) - t\<bar> > 300) \<and>
        sg \<noteq> hmac_sha256_hex rt (VAPI_WEBHOOK_SECRET rt)
                (ts @ ''.'' @ JSON_stringify rt (req_body req)) \<longrightarrow>
         verifyVapiSignature rt req = Inl InvalidSignature)
    \<and> (\<not> (\<exists>t. to_number rt ts = Some t \<and> \<bar>real_of_int (date_now rt div 1000) - t\<bar> > 300) \<and>
        sg = hmac_sha256_hex rt (VAPI_WEBHOOK_SECRET rt)
               (ts @ ''.'' @ JSON_stringify rt (req_body req)) \<longrightarrow>
         verifyVapiSignature rt req = Inr True))
 \<and> (\<forall>ts j. sent_signature s' = sent_signature s \<and> sent_timestamp s' = sent_timestamp s \<and>
           sent_timestamp s = Some ts \<and> parse (sent_body s) = Some j \<and>
           verify_sent rt parse s = Some (Inr True) \<longrightarrow>
      (parse (sent_body s') = None \<longrightarrow> verify_sent rt parse s' = None)
    \<and> (\<forall>j'. parse (sent_body s') = Some j' \<longrightarrow>
          (JSON_stringify rt j' = JSON_stringify rt j \<longrightarrow>
             verify_sent rt parse s' = Some (Inr True))
        \<and> (verify_sent rt parse s' = Some (Inr True) \<longleftrightarrow>
             hmac_sha256_hex rt (VAPI_WEBHOOK_SECRET rt) (ts @ ''.'' @ JSON_stringify rt j') =
             hmac_sha256_hex rt (VAPI_WEBHOOK_SECRET rt) (ts @ ''.'' @ JSON_stringify rt j))
        \<and> (verify_sent rt parse s' \<noteq> Some (Inr True) \<longrightarrow>
             verify_sent rt parse s' = Some (Inl InvalidSignature))))"
proof -
  have heads: "(\<not> truthy_str (x_vapi_signature req) \<or> \<not> truthy_str (x_vapi_timestamp req) \<longrightarrow>
      verifyVapiSignature rt req = Inl MissingSignatureOrTimestamp)"
    by (simp add: verify_cases)
  have present: "\<forall>sg ts. x_vapi_signature req = Some sg \<and> sg \<noteq> [] \<and>
             x_vapi_timestamp req = Some ts \<and> ts \<noteq> [] \<longrightarrow>
      ((\<exists>t. to_number rt ts = Some t \<and> \<bar>real_of_int (date_now rt div 1000) - t\<bar> > 300) \<longrightarrow>
         verifyVapiSignature rt req = Inl WebhookTimestampTooOld)
    \<and> (\<not> (\<exists>t. to_number rt ts = Some t \<and> \<bar>real_of_int (date_now rt div 1000) - t\<bar> > 300) \<and>
        sg \<noteq> hmac_sha256_hex rt (VAPI_WEBHOOK_SECRET rt)
                (ts @ ''.'' @ JSON_stringify rt (req_body req)) \<longrightarrow>
         verifyVapiSignature rt req = Inl InvalidSignature)
    \<and> (\<not> (\<exists>t. to_number rt ts = Some t \<and> \<bar>real_of_int (date_now rt div 1000) - t\<bar> > 300) \<and>
        sg = hmac_sha256_hex rt (VAPI_WEBHOOK_SECRET rt)
               (ts @ ''.'' @ JSON_stringify rt (req_body req)) \<longrightarrow>
         verifyVapiSignature rt req = Inr True)"
    by (auto simp: verify_cases truthy_str_def too_old_iff)
  have tamper: "\<forall>ts j. sent_signature s' = sent_signature s \<and> sent_timestamp s' = sent_timestamp s \<and>
           sent_timestamp s = Some ts \<and> parse (sent_body s) = Some j \<and>
           verify_sent rt parse s = Some (Inr True) \<longrightarrow>
      (parse (sent_body s') = None \<longrightarrow> verify_sent rt parse s' = None)
    \<and> (\<forall>j'. parse (sent_body s') = Some j' \<longrightarrow>
          (JSON_stringify rt j' = JSON_stringify rt j \<longrightarrow>
             verify_sent rt parse s' = Some (Inr True))
        \<and> (verify_sent rt parse s' = Some (Inr True) \<longleftrightarrow>
             hmac_sha256_hex rt (VAPI_WEBHOOK_SECRET rt) (ts @ ''.'' @ JSON_stringify rt j') =
             hmac_sha256_hex rt (VAPI_WEBHOOK_SECRET rt) (ts @ ''.'' @ JSON_stringify rt j))
        \<and> (verify_sent rt parse s' \<noteq> Some (Inr True) \<longrightarrow>
             verify_sent rt parse s' = Some (Inl InvalidSignature)))"
    by (auto simp: verify_sent_def received_def verify_cases split: if_splits)
  from heads present tamper show ?thesis by blast
qed

theorem C5_signature_verification_witness:
  "verify_sent runtime_demo parse_json sent_demo = Some (Inr True)
   \<and> verify_sent runtime_demo parse_json (sent_demo\<lparr>sent_body := body_altered\<rparr>) = Some (Inr True)
   \<and> verify_sent runtime_demo parse_json (sent_demo\<lparr>sent_body := body_forged\<rparr>) =
       Some (Inl InvalidSignature)
   \<and> verify_sent runtime_demo parse_json (sent_demo\<lparr>sent_body := ''{''\<rparr>) = None
   \<and> verifyVapiSignature runtime_demo request_demo = Inr True
   \<and> verifyVapiSignature runtime_demo (request_demo\<lparr>req_body := forged_value\<rparr>) =
       Inl InvalidSignature
   \<and> verifyVapiSignature runtime_demo (request_demo\<lparr>x_vapi_signature := None\<rparr>) =
       Inl MissingSignatureOrTimestamp
   \<and> verifyVapiSignature runtime_demo (request_demo\<lparr>x_vapi_timestamp := Some ''1738245000''\<rparr>) =
       Inl WebhookTimestampTooOld"
proof -
  have q: "x_vapi_signature request_demo = Some (toy_mac ''s'' (''1738245600.'' @ body_signed))"
    "x_vapi_timestamp request_demo = Some ''1738245600''" "req_body request_demo = note_value"
    by (simp_all add: request_demo_def)
  have p: "parse_json ''{'' = None" by code_simp
  have d: "body_forged \<noteq> body_signed" by (simp add: body_forged_def body_signed_def)
  note f = runtime_demo_fields sent_demo_fields toy_mac_nonempty toy_mac_inj stringify_note
    stringify_forged parse_signed parse_altered parse_forged
  from C5_signature_verification
         [of request_demo runtime_demo "sent_demo\<lparr>sent_body := body_altered\<rparr>" sent_demo parse_json]
       verify_sent_demo f
  have 1: "verify_sent runtime_demo parse_json (sent_demo\<lparr>sent_body := body_altered\<rparr>) = Some (Inr True)"
    by simp
  from C5_signature_verification
         [of request_demo runtime_demo "sent_demo\<lparr>sent_body := body_forged\<rparr>" sent_demo parse_json]
       verify_sent_demo f d
  have 2: "verify_sent runtime_demo parse_json (sent_demo\<lparr>sent_body := body_forged\<rparr>) =
       Some (Inl InvalidSignature)"
    by simp
  from C5_signature_verification
         [of request_demo runtime_demo "sent_demo\<lparr>sent_body := ''{''\<rparr>" sent_demo parse_json]
       verify_sent_demo f p
  have 3: "verify_sent runtime_demo parse_json (sent_demo\<lparr>sent_body := ''{''\<rparr>) = None"
    by simp
  from C5_signature_verification [of request_demo runtime_demo sent_demo sent_demo parse_json] q f
  have 4: "verifyVapiSignature runtime_demo request_demo = Inr True"
    by (simp add: truthy_str_def)
  from C5_signature_verification
         [of "request_demo\<lparr>req_body := forged_value\<rparr>" runtime_demo sent_demo sent_demo parse_json] q f d
  have 5: "verifyVapiSignature runtime_demo (request_demo\<lparr>req_body := forged_value\<rparr>) =
       Inl InvalidSignature"
    by (simp add: truthy_str_def)
  from C5_signature_verification
         [of "request_demo\<lparr>x_vapi_signature := None\<rparr>" runtime_demo sent_demo sent_demo parse_json]
  have 6: "verifyVapiSignature runtime_demo (request_demo\<lparr>x_vapi_signature := None\<rparr>) =
       Inl MissingSignatureOrTimestamp"
    by (simp add: truthy_str_def)
  from C5_signature_verification
         [of "request_demo\<lparr>x_vapi_timestamp := Some ''1738245000''\<rparr>" runtime_demo sent_demo sent_demo parse_json]
       q f
  have 7: "verifyVapiSignature runtime_demo (request_demo\<lparr>x_vapi_timestamp := Some ''1738245000''\<rparr>) =
       Inl WebhookTimestampTooOld"
    by (simp add: truthy_str_def)
  from verify_sent_demo 1 2 3 4 5 6 7 show ?thesis by simp
qed

end
